theory Spec2Isabelle
  imports Complex_Main
begin

section \<open>JavaScript numbers\<close>

text \<open>
  The services compute with JavaScript numbers. The model keeps the three special values
  that decide the control flow of the code (\<open>NaN\<close> and the two infinities). The
  operations of this section take the finite values as exact reals; the operations that
  round are those of the next section. The two zeros of IEEE 754 are one value. Every
  operation below follows the ECMAScript rules for the
  special values: \<open>NaN\<close> is contagious, every comparison with \<open>NaN\<close> is false,
  \<open>0 / 0\<close> is \<open>NaN\<close>, and a non-zero number divided by zero is an infinity.
\<close>

datatype jsnum = Fin real | PInf | NInf | NaN

fun js_neg :: "jsnum \<Rightarrow> jsnum" where
  "js_neg (Fin a) = Fin (- a)"
| "js_neg PInf = NInf"
| "js_neg NInf = PInf"
| "js_neg NaN = NaN"

fun js_add :: "jsnum \<Rightarrow> jsnum \<Rightarrow> jsnum" where
  "js_add (Fin a) (Fin b) = Fin (a + b)"
| "js_add NaN _ = NaN"
| "js_add _ NaN = NaN"
| "js_add PInf NInf = NaN"
| "js_add NInf PInf = NaN"
| "js_add PInf _ = PInf"
| "js_add _ PInf = PInf"
| "js_add NInf _ = NInf"
| "js_add _ NInf = NInf"

definition js_sub :: "jsnum \<Rightarrow> jsnum \<Rightarrow> jsnum" where
  "js_sub x y = js_add x (js_neg y)"

text \<open>The sign of a number that is not \<open>NaN\<close>: \<open>-1\<close>, \<open>0\<close> or \<open>1\<close>.\<close>

fun js_sgn :: "jsnum \<Rightarrow> int" where
  "js_sgn (Fin a) = (if a < 0 then - 1 else if a = 0 then 0 else 1)"
| "js_sgn PInf = 1"
| "js_sgn NInf = - 1"
| "js_sgn NaN = 0"

definition js_inf :: "int \<Rightarrow> jsnum" where
  "js_inf s = (if s < 0 then NInf else PInf)"

fun js_mul :: "jsnum \<Rightarrow> jsnum \<Rightarrow> jsnum" where
  "js_mul (Fin a) (Fin b) = Fin (a * b)"
| "js_mul NaN _ = NaN"
| "js_mul _ NaN = NaN"
| "js_mul x y = (if js_sgn x = 0 \<or> js_sgn y = 0 then NaN else js_inf (js_sgn x * js_sgn y))"

fun js_div :: "jsnum \<Rightarrow> jsnum \<Rightarrow> jsnum" where
  "js_div (Fin a) (Fin b) =
     (if b = 0 then (if a = 0 then NaN else js_inf (js_sgn (Fin a))) else Fin (a / b))"
| "js_div NaN _ = NaN"
| "js_div _ NaN = NaN"
| "js_div (Fin a) _ = Fin 0"
| "js_div x (Fin b) = js_inf (js_sgn x * (if b < 0 then - 1 else 1))"
| "js_div _ _ = NaN"

fun Math_abs :: "jsnum \<Rightarrow> jsnum" where
  "Math_abs (Fin a) = Fin \<bar>a\<bar>"
| "Math_abs PInf = PInf"
| "Math_abs NInf = PInf"
| "Math_abs NaN = NaN"

fun Math_sqrt :: "jsnum \<Rightarrow> jsnum" where
  "Math_sqrt (Fin a) = (if a < 0 then NaN else Fin (sqrt a))"
| "Math_sqrt PInf = PInf"
| "Math_sqrt NInf = NaN"
| "Math_sqrt NaN = NaN"

text \<open>\<open>Math.pow(x, 2)\<close>, the only power the services take.\<close>

definition Math_pow2 :: "jsnum \<Rightarrow> jsnum" where
  "Math_pow2 x = js_mul x x"

text \<open>\<open>x < y\<close> and \<open>x > y\<close> of JavaScript: false as soon as one side is \<open>NaN\<close>.\<close>

fun js_lt :: "jsnum \<Rightarrow> jsnum \<Rightarrow> bool" where
  "js_lt (Fin a) (Fin b) = (a < b)"
| "js_lt NaN _ = False"
| "js_lt _ NaN = False"
| "js_lt _ NInf = False"
| "js_lt PInf _ = False"
| "js_lt NInf _ = True"
| "js_lt _ PInf = True"

definition js_gt :: "jsnum \<Rightarrow> jsnum \<Rightarrow> bool" where
  "js_gt x y = js_lt y x"

text \<open>Truthiness of a number: \<open>0\<close> and \<open>NaN\<close> are falsy.\<close>

fun js_truthy :: "jsnum \<Rightarrow> bool" where
  "js_truthy (Fin a) = (a \<noteq> 0)"
| "js_truthy NaN = False"
| "js_truthy _ = True"

text \<open>\<open>x || d\<close> on numbers.\<close>

definition js_or :: "jsnum \<Rightarrow> jsnum \<Rightarrow> jsnum" where
  "js_or x d = (if js_truthy x then x else d)"

text \<open>
  \<open>x || d\<close> where \<open>x\<close> is a field that may be \<open>null\<close> or \<open>undefined\<close>
  (\<open>None\<close>), both falsy.
\<close>

definition js_or_field :: "jsnum option \<Rightarrow> jsnum \<Rightarrow> jsnum" where
  "js_or_field x d = (case x of None \<Rightarrow> d | Some v \<Rightarrow> js_or v d)"

text \<open>\<open>Math.min(...values)\<close> and \<open>Math.max(...values)\<close>.\<close>

fun js_min2 :: "jsnum \<Rightarrow> jsnum \<Rightarrow> jsnum" where
  "js_min2 NaN _ = NaN"
| "js_min2 _ NaN = NaN"
| "js_min2 x y = (if js_lt y x then y else x)"

fun js_max2 :: "jsnum \<Rightarrow> jsnum \<Rightarrow> jsnum" where
  "js_max2 NaN _ = NaN"
| "js_max2 _ NaN = NaN"
| "js_max2 x y = (if js_lt x y then y else x)"

definition Math_min :: "jsnum list \<Rightarrow> jsnum" where
  "Math_min values = foldl js_min2 PInf values"

definition Math_max :: "jsnum list \<Rightarrow> jsnum" where
  "Math_max values = foldl js_max2 NInf values"

section \<open>Rounded arithmetic\<close>

text \<open>
  The operations above take the finite numbers as exact reals. JavaScript rounds: the
  result of \<open>+\<close>, \<open>-\<close>, \<open>*\<close>, \<open>/\<close> and \<open>Math.sqrt\<close> on finite numbers is
  the exact result rounded to a double, an infinity when it is out of range, and a
  decimal literal is its value rounded. The operations below take the rounding as a
  parameter \<open>rnd\<close> and keep every rule for the special values, so that what is proved
  of them for every \<open>rnd\<close> holds of the doubles; the exact operations are the instance
  \<open>rnd = Fin\<close>. Comparisons, \<open>Math.abs\<close>, \<open>Math.min\<close>, \<open>Math.max\<close> and the
  negation do not round.
\<close>

type_synonym rounding = "real \<Rightarrow> jsnum"

fun fl_add :: "rounding \<Rightarrow> jsnum \<Rightarrow> jsnum \<Rightarrow> jsnum" where
  "fl_add rnd (Fin a) (Fin b) = rnd (a + b)"
| "fl_add rnd x y = js_add x y"

definition fl_sub :: "rounding \<Rightarrow> jsnum \<Rightarrow> jsnum \<Rightarrow> jsnum" where
  "fl_sub rnd x y = fl_add rnd x (js_neg y)"

fun fl_mul :: "rounding \<Rightarrow> jsnum \<Rightarrow> jsnum \<Rightarrow> jsnum" where
  "fl_mul rnd (Fin a) (Fin b) = rnd (a * b)"
| "fl_mul rnd x y = js_mul x y"

fun fl_div :: "rounding \<Rightarrow> jsnum \<Rightarrow> jsnum \<Rightarrow> jsnum" where
  "fl_div rnd (Fin a) (Fin b) = (if b = 0 then js_div (Fin a) (Fin b) else rnd (a / b))"
| "fl_div rnd x y = js_div x y"

fun fl_sqrt :: "rounding \<Rightarrow> jsnum \<Rightarrow> jsnum" where
  "fl_sqrt rnd (Fin a) = (if a < 0 then NaN else rnd (sqrt a))"
| "fl_sqrt rnd x = Math_sqrt x"

text \<open>\<open>Math.pow(x, 2)\<close>, taken as the rounded product \<open>x * x\<close>.\<close>

definition fl_pow2 :: "rounding \<Rightarrow> jsnum \<Rightarrow> jsnum" where
  "fl_pow2 rnd x = fl_mul rnd x x"

text \<open>
  The rounding of the doubles (IEEE 754 binary64, round to nearest, ties to even). A real
  \<open>x\<close> other than 0 lies in a binade \<open>2 ^ e \<le> |x| < 2 ^ (e + 1)\<close>, in which the
  doubles are the multiples of \<open>2 ^ (e - 52)\<close>, the exponent \<open>e\<close> being at least
  \<open>-1022\<close>; \<open>|x|\<close> goes to the nearest multiple, to the even one of two nearest, and
  a result of magnitude \<open>2 ^ 1024\<close> is an infinity.
\<close>

definition roundHalfEven :: "real \<Rightarrow> int" where
  "roundHalfEven q =
     (let f = \<lfloor>q\<rfloor>; r = q - of_int f
      in if r < 1 / 2 then f else if 1 / 2 < r then f + 1 else if even f then f else f + 1)"

definition rnd64 :: rounding where
  "rnd64 x =
     (if x = 0 then Fin 0
      else
        let a = \<bar>x\<bar>;
            e = max \<lfloor>log 2 a\<rfloor> (- 1022);
            u = 2 powi (e - 52);
            y = of_int (roundHalfEven (a / u)) * u
        in if 2 ^ 1024 \<le> y then (if x < 0 then NInf else PInf)
           else Fin (if x < 0 then - y else y))"

section \<open>Data model\<close>

text \<open>
  A normalized event. \<open>time\<close> holds \<open>new Date(event.time).getTime()\<close>, the
  timestamp in milliseconds, which is \<open>NaN\<close> when the string does not parse.
  A field that is \<open>null\<close> or \<open>undefined\<close> is \<open>None\<close>.
\<close>

record event =
  event_id :: string
  time :: jsnum
  latitude :: jsnum
  longitude :: jsnum
  depth_km :: "jsnum option"
  magnitude :: "jsnum option"

record criteria =
  timeWindow :: jsnum
  distanceThreshold :: jsnum
  magnitudeDiffThreshold :: jsnum
  depthDiffThreshold :: jsnum

text \<open>The criteria object a caller passes: any key may be left out.\<close>

record criteria_arg =
  timeWindow_arg :: "jsnum option"
  distanceThreshold_arg :: "jsnum option"
  magnitudeDiffThreshold_arg :: "jsnum option"
  depthDiffThreshold_arg :: "jsnum option"

definition defaultCriteria :: criteria where
  "defaultCriteria =
     \<lparr>timeWindow = Fin 30, distanceThreshold = Fin 10,
      magnitudeDiffThreshold = Fin 1, depthDiffThreshold = Fin 50\<rparr>"

text \<open>\<open>{ ...this.defaultCriteria, ...criteria }\<close>\<close>

definition mergeCriteria :: "criteria \<Rightarrow> criteria_arg \<Rightarrow> criteria" where
  "mergeCriteria d a =
     \<lparr>timeWindow = (case timeWindow_arg a of None \<Rightarrow> timeWindow d | Some v \<Rightarrow> v),
      distanceThreshold =
        (case distanceThreshold_arg a of None \<Rightarrow> distanceThreshold d | Some v \<Rightarrow> v),
      magnitudeDiffThreshold =
        (case magnitudeDiffThreshold_arg a of None \<Rightarrow> magnitudeDiffThreshold d | Some v \<Rightarrow> v),
      depthDiffThreshold =
        (case depthDiffThreshold_arg a of None \<Rightarrow> depthDiffThreshold d | Some v \<Rightarrow> v)\<rparr>"

section \<open>Match scorer\<close>

text \<open>\<open>EventMatcher.calculateMatchScore\<close>\<close>

definition calculateMatchScore ::
  "jsnum \<Rightarrow> jsnum \<Rightarrow> jsnum option \<Rightarrow> jsnum \<Rightarrow> criteria \<Rightarrow> jsnum" where
  "calculateMatchScore timeDiff distance magnitudeDiff depthDiff c =
     (let timeScore = js_mul (js_div timeDiff (timeWindow c)) (Fin (4 / 10));
          distanceScore = js_mul (js_div distance (distanceThreshold c)) (Fin (4 / 10));
          magnitudeScore =
            (case magnitudeDiff of
               Some md \<Rightarrow> js_mul (js_div md (magnitudeDiffThreshold c)) (Fin (15 / 100))
             | None \<Rightarrow> Fin 0);
          depthScore = js_mul (js_div depthDiff (depthDiffThreshold c)) (Fin (5 / 100))
      in js_add (js_add (js_add timeScore distanceScore) magnitudeScore) depthScore)"

text \<open>
  \<open>EventMatcher.calculateMatchScore\<close> in rounded arithmetic: every operation and
  every literal that is not a double is rounded.
\<close>

definition calculateMatchScore_fl ::
  "rounding \<Rightarrow> jsnum \<Rightarrow> jsnum \<Rightarrow> jsnum option \<Rightarrow> jsnum \<Rightarrow> criteria \<Rightarrow> jsnum" where
  "calculateMatchScore_fl rnd timeDiff distance magnitudeDiff depthDiff c =
     (let timeScore = fl_mul rnd (fl_div rnd timeDiff (timeWindow c)) (rnd (4 / 10));
          distanceScore = fl_mul rnd (fl_div rnd distance (distanceThreshold c)) (rnd (4 / 10));
          magnitudeScore =
            (case magnitudeDiff of
               Some md \<Rightarrow> fl_mul rnd (fl_div rnd md (magnitudeDiffThreshold c)) (rnd (15 / 100))
             | None \<Rightarrow> Fin 0);
          depthScore = fl_mul rnd (fl_div rnd depthDiff (depthDiffThreshold c)) (rnd (5 / 100))
      in fl_add rnd (fl_add rnd (fl_add rnd timeScore distanceScore) magnitudeScore) depthScore)"

section \<open>Event matcher\<close>

text \<open>
  The package \<open>haversine\<close> is imported by the matcher and is not part of the
  repository: the matcher is modelled over any function of the four coordinates.
\<close>

type_synonym distfun = "jsnum \<Rightarrow> jsnum \<Rightarrow> jsnum \<Rightarrow> jsnum \<Rightarrow> jsnum"

text \<open>\<open>EventMatcher.calculateDistance\<close>\<close>

definition calculateDistance :: "distfun \<Rightarrow> jsnum \<Rightarrow> jsnum \<Rightarrow> jsnum \<Rightarrow> jsnum \<Rightarrow> jsnum" where
  "calculateDistance haversine lat1 lon1 lat2 lon2 = haversine lat1 lon1 lat2 lon2"

record match =
  referenceIndex :: nat
  detectedIndex :: nat
  referenceEvent :: event
  detectedEvent :: event
  timeDiff :: jsnum
  distance :: jsnum
  magnitudeDiff :: "jsnum option"
  depthDiff :: jsnum
  matchScore :: jsnum

record summary =
  totalReference :: nat
  totalDetected :: nat
  matchedPairs :: nat
  unmatchedReferenceCount :: nat
  unmatchedDetectedCount :: nat

record matching_results =
  matches :: "match list"
  unmatchedReference :: "event list"
  unmatchedDetected :: "event list"
  matchingCriteria :: criteria
  summary :: summary

text \<open>
  The body of the inner loop of \<open>matchEvents\<close> for one detected event that is not
  yet matched, from the time check to the candidate object: \<open>None\<close> is a
  \<open>continue\<close>, \<open>Some\<close> carries the object that becomes \<open>bestMatch\<close> when its
  score is below \<open>bestScore\<close>.
\<close>

definition candidateMatch ::
  "distfun \<Rightarrow> criteria \<Rightarrow> nat \<Rightarrow> event \<Rightarrow> nat \<Rightarrow> event \<Rightarrow> match option" where
  "candidateMatch haversine c refIdx refEvent detIdx detEvent =
     (let timeDiff = js_div (Math_abs (js_sub (time refEvent) (time detEvent))) (Fin 1000)
      in if js_gt timeDiff (timeWindow c) then None
      else
        let distance = calculateDistance haversine (latitude refEvent) (longitude refEvent)
                         (latitude detEvent) (longitude detEvent)
        in if js_gt distance (distanceThreshold c) then None
        else
          let magnitudeDiff =
                (case (magnitude refEvent, magnitude detEvent) of
                   (Some rm, Some dm) \<Rightarrow> Some (Math_abs (js_sub rm dm))
                 | _ \<Rightarrow> None)
          in if (case magnitudeDiff of
                   Some md \<Rightarrow> js_gt md (magnitudeDiffThreshold c)
                 | None \<Rightarrow> False) then None
          else
            let refDepth = js_or_field (depth_km refEvent) (Fin 10);
                detDepth = js_or_field (depth_km detEvent) (Fin 10);
                depthDiff = Math_abs (js_sub refDepth detDepth)
            in if js_gt depthDiff (depthDiffThreshold c) then None
            else
              let score = calculateMatchScore timeDiff distance magnitudeDiff depthDiff c
              in Some \<lparr>referenceIndex = refIdx, detectedIndex = detIdx,
                        referenceEvent = refEvent, detectedEvent = detEvent,
                        timeDiff = timeDiff, distance = distance,
                        magnitudeDiff = magnitudeDiff, depthDiff = depthDiff,
                        matchScore = score\<rparr>)"

text \<open>
  The inner loop over \<open>detIdx\<close>, on the detected events from \<open>detIdx\<close> on, with
  the loop state \<open>(bestMatch, bestScore)\<close>.
\<close>

fun innerLoop ::
  "distfun \<Rightarrow> criteria \<Rightarrow> nat set \<Rightarrow> nat \<Rightarrow> event \<Rightarrow> nat \<Rightarrow> event list
     \<Rightarrow> match option \<times> jsnum \<Rightarrow> match option \<times> jsnum" where
  "innerLoop haversine c matchedDetIndices refIdx refEvent detIdx [] best = best"
| "innerLoop haversine c matchedDetIndices refIdx refEvent detIdx (detEvent # rest)
     (bestMatch, bestScore) =
     (if detIdx \<in> matchedDetIndices
      then innerLoop haversine c matchedDetIndices refIdx refEvent (Suc detIdx) rest
             (bestMatch, bestScore)
      else
        (case candidateMatch haversine c refIdx refEvent detIdx detEvent of
           None \<Rightarrow>
             innerLoop haversine c matchedDetIndices refIdx refEvent (Suc detIdx) rest
               (bestMatch, bestScore)
         | Some cand \<Rightarrow>
             if js_lt (matchScore cand) bestScore
             then innerLoop haversine c matchedDetIndices refIdx refEvent (Suc detIdx) rest
                    (Some cand, matchScore cand)
             else innerLoop haversine c matchedDetIndices refIdx refEvent (Suc detIdx) rest
                    (bestMatch, bestScore)))"

text \<open>
  The outer loop over \<open>refIdx\<close>, on the reference events from \<open>refIdx\<close> on, with
  the loop state \<open>(matches, matchedRefIndices, matchedDetIndices)\<close> (the list
  \<open>matches\<close> is written \<open>matched\<close>).
\<close>

fun outerLoop ::
  "distfun \<Rightarrow> criteria \<Rightarrow> event list \<Rightarrow> nat \<Rightarrow> event list
     \<Rightarrow> match list \<times> nat set \<times> nat set \<Rightarrow> match list \<times> nat set \<times> nat set" where
  "outerLoop haversine c detectedEvents refIdx [] st = st"
| "outerLoop haversine c detectedEvents refIdx (refEvent # rest)
     (matched, matchedRefIndices, matchedDetIndices) =
     (case fst (innerLoop haversine c matchedDetIndices refIdx refEvent 0 detectedEvents
                  (None, PInf)) of
        None \<Rightarrow>
          outerLoop haversine c detectedEvents (Suc refIdx) rest
            (matched, matchedRefIndices, matchedDetIndices)
      | Some bestMatch \<Rightarrow>
          outerLoop haversine c detectedEvents (Suc refIdx) rest
            (matched @ [bestMatch], insert refIdx matchedRefIndices,
             insert (detectedIndex bestMatch) matchedDetIndices))"

text \<open>\<open>events.filter((_, idx) => !indices.has(idx))\<close>\<close>

definition filterUnmatched :: "nat set \<Rightarrow> event list \<Rightarrow> event list" where
  "filterUnmatched indices events =
     map snd (filter (\<lambda>(idx, _). idx \<notin> indices) (enumerate 0 events))"

text \<open>
  \<open>EventMatcher.matchEvents\<close>. The function is \<open>async\<close> and has no
  \<open>throw\<close>: its promise is fulfilled (\<open>Inr\<close>) with the results object; a rejection
  would be \<open>Inl\<close> with the error message.
\<close>

definition matchEvents ::
  "distfun \<Rightarrow> event list \<Rightarrow> event list \<Rightarrow> criteria_arg \<Rightarrow> string + matching_results" where
  "matchEvents haversine referenceEvents detectedEvents criteria =
     (let matchingCriteria = mergeCriteria defaultCriteria criteria;
          (matches, matchedRefIndices, matchedDetIndices) =
            outerLoop haversine matchingCriteria detectedEvents 0 referenceEvents ([], {}, {});
          unmatchedReference = filterUnmatched matchedRefIndices referenceEvents;
          unmatchedDetected = filterUnmatched matchedDetIndices detectedEvents
      in Inr \<lparr>matches = matches,
               unmatchedReference = unmatchedReference,
               unmatchedDetected = unmatchedDetected,
               matchingCriteria = matchingCriteria,
               summary =
                 \<lparr>totalReference = length referenceEvents,
                  totalDetected = length detectedEvents,
                  matchedPairs = length matches,
                  unmatchedReferenceCount = length unmatchedReference,
                  unmatchedDetectedCount = length unmatchedDetected\<rparr>\<rparr>)"

section \<open>Event matcher in rounded arithmetic\<close>

text \<open>
  The body of the inner loop of \<open>matchEvents\<close> (lines 56 to 108), as
  \<open>candidateMatch\<close> above, in rounded arithmetic.
\<close>

definition candidateMatch_fl ::
  "rounding \<Rightarrow> distfun \<Rightarrow> criteria \<Rightarrow> nat \<Rightarrow> event \<Rightarrow> nat \<Rightarrow> event \<Rightarrow> match option" where
  "candidateMatch_fl rnd haversine c refIdx refEvent detIdx detEvent =
     (let timeDiff =
            fl_div rnd (Math_abs (fl_sub rnd (time refEvent) (time detEvent))) (Fin 1000)
      in if js_gt timeDiff (timeWindow c) then None
      else
        let distance = calculateDistance haversine (latitude refEvent) (longitude refEvent)
                         (latitude detEvent) (longitude detEvent)
        in if js_gt distance (distanceThreshold c) then None
        else
          let magnitudeDiff =
                (case (magnitude refEvent, magnitude detEvent) of
                   (Some rm, Some dm) \<Rightarrow> Some (Math_abs (fl_sub rnd rm dm))
                 | _ \<Rightarrow> None)
          in if (case magnitudeDiff of
                   Some md \<Rightarrow> js_gt md (magnitudeDiffThreshold c)
                 | None \<Rightarrow> False) then None
          else
            let refDepth = js_or_field (depth_km refEvent) (Fin 10);
                detDepth = js_or_field (depth_km detEvent) (Fin 10);
                depthDiff = Math_abs (fl_sub rnd refDepth detDepth)
            in if js_gt depthDiff (depthDiffThreshold c) then None
            else
              let score = calculateMatchScore_fl rnd timeDiff distance magnitudeDiff depthDiff c
              in Some \<lparr>referenceIndex = refIdx, detectedIndex = detIdx,
                        referenceEvent = refEvent, detectedEvent = detEvent,
                        timeDiff = timeDiff, distance = distance,
                        magnitudeDiff = magnitudeDiff, depthDiff = depthDiff,
                        matchScore = score\<rparr>)"

text \<open>The inner loop, as \<open>innerLoop\<close> above.\<close>

fun innerLoop_fl ::
  "rounding \<Rightarrow> distfun \<Rightarrow> criteria \<Rightarrow> nat set \<Rightarrow> nat \<Rightarrow> event \<Rightarrow> nat \<Rightarrow> event list
     \<Rightarrow> match option \<times> jsnum \<Rightarrow> match option \<times> jsnum" where
  "innerLoop_fl rnd haversine c matchedDetIndices refIdx refEvent detIdx [] best = best"
| "innerLoop_fl rnd haversine c matchedDetIndices refIdx refEvent detIdx (detEvent # rest)
     (bestMatch, bestScore) =
     (if detIdx \<in> matchedDetIndices
      then innerLoop_fl rnd haversine c matchedDetIndices refIdx refEvent (Suc detIdx) rest
             (bestMatch, bestScore)
      else
        (case candidateMatch_fl rnd haversine c refIdx refEvent detIdx detEvent of
           None \<Rightarrow>
             innerLoop_fl rnd haversine c matchedDetIndices refIdx refEvent (Suc detIdx) rest
               (bestMatch, bestScore)
         | Some cand \<Rightarrow>
             if js_lt (matchScore cand) bestScore
             then innerLoop_fl rnd haversine c matchedDetIndices refIdx refEvent (Suc detIdx)
                    rest (Some cand, matchScore cand)
             else innerLoop_fl rnd haversine c matchedDetIndices refIdx refEvent (Suc detIdx)
                    rest (bestMatch, bestScore)))"

text \<open>The outer loop, as \<open>outerLoop\<close> above.\<close>

fun outerLoop_fl ::
  "rounding \<Rightarrow> distfun \<Rightarrow> criteria \<Rightarrow> event list \<Rightarrow> nat \<Rightarrow> event list
     \<Rightarrow> match list \<times> nat set \<times> nat set \<Rightarrow> match list \<times> nat set \<times> nat set" where
  "outerLoop_fl rnd haversine c detectedEvents refIdx [] st = st"
| "outerLoop_fl rnd haversine c detectedEvents refIdx (refEvent # rest)
     (matched, matchedRefIndices, matchedDetIndices) =
     (case fst (innerLoop_fl rnd haversine c matchedDetIndices refIdx refEvent 0 detectedEvents
                  (None, PInf)) of
        None \<Rightarrow>
          outerLoop_fl rnd haversine c detectedEvents (Suc refIdx) rest
            (matched, matchedRefIndices, matchedDetIndices)
      | Some bestMatch \<Rightarrow>
          outerLoop_fl rnd haversine c detectedEvents (Suc refIdx) rest
            (matched @ [bestMatch], insert refIdx matchedRefIndices,
             insert (detectedIndex bestMatch) matchedDetIndices))"

text \<open>\<open>EventMatcher.matchEvents\<close> in rounded arithmetic.\<close>

definition matchEvents_fl ::
  "rounding \<Rightarrow> distfun \<Rightarrow> event list \<Rightarrow> event list \<Rightarrow> criteria_arg
     \<Rightarrow> string + matching_results" where
  "matchEvents_fl rnd haversine referenceEvents detectedEvents criteria =
     (let matchingCriteria = mergeCriteria defaultCriteria criteria;
          (matches, matchedRefIndices, matchedDetIndices) =
            outerLoop_fl rnd haversine matchingCriteria detectedEvents 0 referenceEvents
              ([], {}, {});
          unmatchedReference = filterUnmatched matchedRefIndices referenceEvents;
          unmatchedDetected = filterUnmatched matchedDetIndices detectedEvents
      in Inr \<lparr>matches = matches,
               unmatchedReference = unmatchedReference,
               unmatchedDetected = unmatchedDetected,
               matchingCriteria = matchingCriteria,
               summary =
                 \<lparr>totalReference = length referenceEvents,
                  totalDetected = length detectedEvents,
                  matchedPairs = length matches,
                  unmatchedReferenceCount = length unmatchedReference,
                  unmatchedDetectedCount = length unmatchedDetected\<rparr>\<rparr>)"

section \<open>The reference greedy algorithm\<close>

text \<open>
  The algorithm as the specification words it (section 4.3, steps 1 to 6), to be
  compared with the matcher, in the same arithmetic \<open>rnd\<close>. The differences of a
  pair: the absolute time difference in seconds, the great-circle distance, the absolute
  magnitude difference when both magnitudes are present, and the absolute depth
  difference, a missing depth being 10 km.
\<close>

definition spec_timeDiff :: "rounding \<Rightarrow> event \<Rightarrow> event \<Rightarrow> jsnum" where
  "spec_timeDiff rnd r d = fl_div rnd (Math_abs (fl_sub rnd (time r) (time d))) (Fin 1000)"

definition spec_distance :: "distfun \<Rightarrow> event \<Rightarrow> event \<Rightarrow> jsnum" where
  "spec_distance h r d = h (latitude r) (longitude r) (latitude d) (longitude d)"

definition spec_magnitudeDiff :: "rounding \<Rightarrow> event \<Rightarrow> event \<Rightarrow> jsnum option" where
  "spec_magnitudeDiff rnd r d =
     (case magnitude r of
        None \<Rightarrow> None
      | Some rm \<Rightarrow>
          (case magnitude d of None \<Rightarrow> None | Some dm \<Rightarrow> Some (Math_abs (fl_sub rnd rm dm))))"

definition spec_depth :: "event \<Rightarrow> jsnum" where
  "spec_depth e = (case depth_km e of None \<Rightarrow> Fin 10 | Some x \<Rightarrow> x)"

definition spec_depthDiff :: "rounding \<Rightarrow> event \<Rightarrow> event \<Rightarrow> jsnum" where
  "spec_depthDiff rnd r d = Math_abs (fl_sub rnd (spec_depth r) (spec_depth d))"

text \<open>Step 3: the hard filters.\<close>

definition spec_rejected :: "rounding \<Rightarrow> distfun \<Rightarrow> criteria \<Rightarrow> event \<Rightarrow> event \<Rightarrow> bool" where
  "spec_rejected rnd h c r d =
     (js_gt (spec_timeDiff rnd r d) (timeWindow c)
      \<or> js_gt (spec_distance h r d) (distanceThreshold c)
      \<or> (case spec_magnitudeDiff rnd r d of
            None \<Rightarrow> False
          | Some md \<Rightarrow> js_gt md (magnitudeDiffThreshold c))
      \<or> js_gt (spec_depthDiff rnd r d) (depthDiffThreshold c))"

text \<open>Step 4: the score of a pair, by the scorer of section 4.2.\<close>

definition spec_score :: "rounding \<Rightarrow> distfun \<Rightarrow> criteria \<Rightarrow> event \<Rightarrow> event \<Rightarrow> jsnum" where
  "spec_score rnd h c r d =
     calculateMatchScore_fl rnd (spec_timeDiff rnd r d) (spec_distance h r d)
       (spec_magnitudeDiff rnd r d) (spec_depthDiff rnd r d) c"

text \<open>The MatchCandidate of a pair, with its raw differences and its score.\<close>

definition spec_candidate ::
  "rounding \<Rightarrow> distfun \<Rightarrow> criteria \<Rightarrow> nat \<Rightarrow> event \<Rightarrow> nat \<times> event \<Rightarrow> match" where
  "spec_candidate rnd h c i r jd =
     \<lparr>referenceIndex = i, detectedIndex = fst jd,
      referenceEvent = r, detectedEvent = snd jd,
      timeDiff = spec_timeDiff rnd r (snd jd), distance = spec_distance h r (snd jd),
      magnitudeDiff = spec_magnitudeDiff rnd r (snd jd),
      depthDiff = spec_depthDiff rnd r (snd jd),
      matchScore = spec_score rnd h c r (snd jd)\<rparr>"

text \<open>
  Steps 2 and 3: the candidates, with their indices and in their order, that no earlier
  reference event has claimed and that no filter rejects.
\<close>

definition spec_survivors ::
  "rounding \<Rightarrow> distfun \<Rightarrow> criteria \<Rightarrow> nat set \<Rightarrow> event \<Rightarrow> event list
     \<Rightarrow> (nat \<times> event) list" where
  "spec_survivors rnd h c claimed r dets =
     filter (\<lambda>(j, d). j \<notin> claimed \<and> \<not> spec_rejected rnd h c r d) (enumerate 0 dets)"

text \<open>
  Step 4: the first survivor, in the order of the indices, whose score no survivor
  undercuts: the minimum score, the earlier index winning a tie.
\<close>

definition spec_best ::
  "rounding \<Rightarrow> distfun \<Rightarrow> criteria \<Rightarrow> event \<Rightarrow> (nat \<times> event) list
     \<Rightarrow> (nat \<times> event) option" where
  "spec_best rnd h c r survivors =
     find (\<lambda>(j, d). list_all (\<lambda>(k, e). \<not> js_lt (spec_score rnd h c r e)
                                          (spec_score rnd h c r d))
                      survivors)
       survivors"

text \<open>
  Steps 1 and 5: the reference events in their order, from index \<open>i\<close> on; the best
  survivor is committed and its index claimed for good, and a reference event without a
  survivor claims nothing.
\<close>

fun spec_greedy ::
  "rounding \<Rightarrow> distfun \<Rightarrow> criteria \<Rightarrow> event list \<Rightarrow> nat \<Rightarrow> event list \<Rightarrow> nat set
     \<Rightarrow> match list" where
  "spec_greedy rnd h c dets i [] claimed = []"
| "spec_greedy rnd h c dets i (r # rs) claimed =
     (case spec_best rnd h c r (spec_survivors rnd h c claimed r dets) of
        None \<Rightarrow> spec_greedy rnd h c dets (Suc i) rs claimed
      | Some jd \<Rightarrow>
          spec_candidate rnd h c i r jd
          # spec_greedy rnd h c dets (Suc i) rs (insert (fst jd) claimed))"

text \<open>Step 6 and the MatchResult.\<close>

definition spec_matchEvents ::
  "rounding \<Rightarrow> distfun \<Rightarrow> event list \<Rightarrow> event list \<Rightarrow> criteria \<Rightarrow> matching_results" where
  "spec_matchEvents rnd h refs dets c =
     (let ms = spec_greedy rnd h c dets 0 refs {};
          unmatchedRefs =
            map (nth refs) (filter (\<lambda>i. i \<notin> referenceIndex ` set ms) [0..<length refs]);
          unmatchedDets =
            map (nth dets) (filter (\<lambda>j. j \<notin> detectedIndex ` set ms) [0..<length dets])
      in \<lparr>matches = ms, unmatchedReference = unmatchedRefs, unmatchedDetected = unmatchedDets,
          matchingCriteria = c,
          summary =
            \<lparr>totalReference = length refs, totalDetected = length dets,
             matchedPairs = length ms,
             unmatchedReferenceCount = length unmatchedRefs,
             unmatchedDetectedCount = length unmatchedDets\<rparr>\<rparr>)"

section \<open>Inputs on which the matcher is the greedy algorithm\<close>

text \<open>An event whose depth is not exactly 0.\<close>

definition noZeroDepth :: "event \<Rightarrow> bool" where
  "noZeroDepth e = (depth_km e \<noteq> Some (Fin 0))"

text \<open>
  Every pair of a reference event and a candidate that passes the four filters has a
  score that is a number below \<open>Infinity\<close>: neither \<open>NaN\<close> nor \<open>Infinity\<close>.
\<close>

definition scoresOrdered ::
  "rounding \<Rightarrow> distfun \<Rightarrow> criteria \<Rightarrow> event list \<Rightarrow> event list \<Rightarrow> bool" where
  "scoresOrdered rnd h c refs dets =
     list_all (\<lambda>r. list_all (\<lambda>d. spec_rejected rnd h c r d
                                  \<or> js_lt (spec_score rnd h c r d) PInf) dets) refs"

section \<open>The inner loop as a fold\<close>

text \<open>One update of \<open>(bestMatch, bestScore)\<close> by a candidate object.\<close>

definition keepBetter :: "match option \<times> jsnum \<Rightarrow> match \<Rightarrow> match option \<times> jsnum" where
  "keepBetter best cand =
     (if js_lt (matchScore cand) (snd best) then (Some cand, matchScore cand) else best)"

text \<open>The candidate objects the inner loop builds, from index \<open>j\<close> on.\<close>

definition loopCandidates ::
  "rounding \<Rightarrow> distfun \<Rightarrow> criteria \<Rightarrow> nat set \<Rightarrow> nat \<Rightarrow> event \<Rightarrow> nat \<Rightarrow> event list
     \<Rightarrow> match list" where
  "loopCandidates rnd h c claimed i r j ds =
     List.map_filter
       (\<lambda>(k, d). if k \<in> claimed then None else candidateMatch_fl rnd h c i r k d)
       (enumerate j ds)"

text \<open>
  A real number for every score below \<open>Infinity\<close>, in the order of \<open>js_lt\<close>: the
  arc tangent of a finite score, and a number below every arc tangent for
  \<open>-Infinity\<close>.
\<close>

definition scoreKey :: "match \<Rightarrow> real" where
  "scoreKey m = (case matchScore m of Fin s \<Rightarrow> arctan s | NInf \<Rightarrow> - 2 | _ \<Rightarrow> 2)"

section \<open>Sample inputs\<close>

text \<open>
  A great-circle distance in kilometres by the haversine formula on a sphere of radius
  6371 km, to instantiate the distance parameter on concrete inputs; a coordinate that
  is not a finite number gives \<open>NaN\<close>.
\<close>

definition greatCircleKm :: distfun where
  "greatCircleKm lat1 lon1 lat2 lon2 =
     (case (lat1, lon1, lat2, lon2) of
        (Fin a1, Fin o1, Fin a2, Fin o2) \<Rightarrow>
          (let dLat = (a2 - a1) * pi / 180;
               dLon = (o2 - o1) * pi / 180;
               a = (sin (dLat / 2))\<^sup>2
                   + (sin (dLon / 2))\<^sup>2 * cos (a1 * pi / 180) * cos (a2 * pi / 180)
           in Fin (6371 * (2 * (if a < 1 then arctan (sqrt a / sqrt (1 - a)) else pi / 2))))
      | _ \<Rightarrow> NaN)"

text \<open>An event at latitude 0, longitude 0 with the given time in milliseconds.\<close>

definition eventAt :: "string \<Rightarrow> jsnum \<Rightarrow> jsnum option \<Rightarrow> jsnum option \<Rightarrow> event" where
  "eventAt name t dep mag =
     \<lparr>event_id = name, time = t, latitude = Fin 0, longitude = Fin 0,
      depth_km = dep, magnitude = mag\<rparr>"

text \<open>The criteria argument \<open>{}\<close>.\<close>

definition noCriteria :: criteria_arg where
  "noCriteria =
     \<lparr>timeWindow_arg = None, distanceThreshold_arg = None,
      magnitudeDiffThreshold_arg = None, depthDiffThreshold_arg = None\<rparr>"

text \<open>The index pairs \<open>(referenceIndex, detectedIndex)\<close> of a list of matches.\<close>

definition indexPairs :: "match list \<Rightarrow> (nat \<times> nat) list" where
  "indexPairs ms = map (\<lambda>m. (referenceIndex m, detectedIndex m)) ms"

text \<open>The index pairs of the matches a run of the matcher returns.\<close>

definition matchedPairsOf :: "string + matching_results \<Rightarrow> (nat \<times> nat) list" where
  "matchedPairsOf run = (case run of Inl _ \<Rightarrow> [] | Inr res \<Rightarrow> indexPairs (matches res))"

text \<open>A criteria argument that sets \<open>depthDiffThreshold\<close> only.\<close>

definition depthCriteria :: "jsnum \<Rightarrow> criteria_arg" where
  "depthCriteria v = noCriteria\<lparr>depthDiffThreshold_arg := Some v\<rparr>"

text \<open>A criteria argument that sets \<open>timeWindow\<close> only.\<close>

definition timeCriteria :: "jsnum \<Rightarrow> criteria_arg" where
  "timeCriteria v = noCriteria\<lparr>timeWindow_arg := Some v\<rparr>"

text \<open>An event of depth exactly 0 with the field removed; any other event as it is.\<close>

definition dropZeroDepth :: "event \<Rightarrow> event" where
  "dropZeroDepth e = (if depth_km e = Some (Fin 0) then e\<lparr>depth_km := None\<rparr> else e)"

text \<open>A match with \<open>dropZeroDepth\<close> applied to the two events it carries.\<close>

definition dropZeroDepthIn :: "match \<Rightarrow> match" where
  "dropZeroDepthIn m =
     m\<lparr>referenceEvent := dropZeroDepth (referenceEvent m),
       detectedEvent := dropZeroDepth (detectedEvent m)\<rparr>"

section \<open>Metrics calculator\<close>

text \<open>
  The object \<open>calculateStats\<close> of \<open>PhaseNetComparisonService\<close> returns; its fields
  \<open>min\<close> and \<open>max\<close> are \<open>minValue\<close> and \<open>maxValue\<close> here.
\<close>

record stats =
  mean :: jsnum
  stdDev :: jsnum
  rms :: jsnum
  minValue :: jsnum
  maxValue :: jsnum
  count :: nat

text \<open>\<open>PhaseNetComparisonService.calculateStats\<close>; \<open>None\<close> is \<open>null\<close>.\<close>

definition calculateStats :: "jsnum list \<Rightarrow> stats option" where
  "calculateStats values =
     (if length values = 0 then None
      else
        let n = Fin (real (length values));
            mean = js_div (foldl (\<lambda>sum val. js_add sum val) (Fin 0) values) n;
            variance =
              js_div (foldl (\<lambda>sum val. js_add sum (Math_pow2 (js_sub val mean))) (Fin 0) values) n;
            stdDev = Math_sqrt variance;
            rms = Math_sqrt
                    (js_div (foldl (\<lambda>sum val. js_add sum (Math_pow2 val)) (Fin 0) values) n)
        in Some \<lparr>mean = mean, stdDev = stdDev, rms = rms,
                  minValue = Math_min values, maxValue = Math_max values,
                  count = length values\<rparr>)"

text \<open>
  The object \<open>residualStats\<close>, with its fields \<open>time\<close>, \<open>distance\<close> and
  \<open>magnitude\<close>.
\<close>

record residual_stats =
  residualTime :: "stats option"
  residualDistance :: "stats option"
  residualMagnitude :: "stats option"

text \<open>
  The metrics object; its fields \<open>totalReference\<close> and \<open>totalDetected\<close> are
  \<open>metricsTotalReference\<close> and \<open>metricsTotalDetected\<close> here.
\<close>

record metrics =
  precision :: jsnum
  recall :: jsnum
  f1Score :: jsnum
  detectionRate :: jsnum
  falseAlarmRate :: jsnum
  truePositives :: nat
  falsePositives :: nat
  falseNegatives :: nat
  metricsTotalReference :: nat
  metricsTotalDetected :: nat
  residualStats :: "residual_stats option"

text \<open>A count as a JavaScript number.\<close>

definition js_nat :: "nat \<Rightarrow> jsnum" where
  "js_nat n = Fin (real n)"

text \<open>\<open>PhaseNetComparisonService.calculatePerformanceMetrics\<close>\<close>

definition calculatePerformanceMetrics :: "matching_results \<Rightarrow> metrics" where
  "calculatePerformanceMetrics matchingResults =
     (let truePositives = length (matches matchingResults);
          falsePositives = length (unmatchedDetected matchingResults);
          falseNegatives = length (unmatchedReference matchingResults);
          precision =
            js_or (js_div (js_nat truePositives) (js_nat (truePositives + falsePositives))) (Fin 0);
          recall =
            js_or (js_div (js_nat truePositives) (js_nat (truePositives + falseNegatives))) (Fin 0);
          f1Score =
            js_or (js_div (js_mul (js_mul (Fin 2) precision) recall) (js_add precision recall))
              (Fin 0);
          detectionRate = recall;
          falseAlarmRate =
            js_or (js_div (js_nat falsePositives) (js_nat (truePositives + falsePositives))) (Fin 0);
          residualStats =
            (if length (matches matchingResults) > 0
             then
               let timeResiduals = map timeDiff (matches matchingResults);
                   distanceResiduals = map distance (matches matchingResults);
                   magnitudeResiduals =
                     map (\<lambda>m. the (magnitudeDiff m))
                       (filter (\<lambda>m. magnitudeDiff m \<noteq> None) (matches matchingResults))
               in Some \<lparr>residualTime = calculateStats timeResiduals,
                         residualDistance = calculateStats distanceResiduals,
                         residualMagnitude =
                           (if length magnitudeResiduals > 0
                            then calculateStats magnitudeResiduals else None)\<rparr>
             else None)
      in \<lparr>precision = precision, recall = recall, f1Score = f1Score,
          detectionRate = detectionRate, falseAlarmRate = falseAlarmRate,
          truePositives = truePositives, falsePositives = falsePositives,
          falseNegatives = falseNegatives,
          metricsTotalReference = truePositives + falseNegatives,
          metricsTotalDetected = truePositives + falsePositives,
          residualStats = residualStats\<rparr>)"

section \<open>Metrics calculator in rounded arithmetic\<close>

text \<open>\<open>PhaseNetComparisonService.calculateStats\<close> in rounded arithmetic.\<close>

definition calculateStats_fl :: "rounding \<Rightarrow> jsnum list \<Rightarrow> stats option" where
  "calculateStats_fl rnd values =
     (if length values = 0 then None
      else
        let n = Fin (real (length values));
            mean = fl_div rnd (foldl (\<lambda>sum val. fl_add rnd sum val) (Fin 0) values) n;
            variance =
              fl_div rnd
                (foldl (\<lambda>sum val. fl_add rnd sum (fl_pow2 rnd (fl_sub rnd val mean)))
                   (Fin 0) values) n;
            stdDev = fl_sqrt rnd variance;
            rms = fl_sqrt rnd
                    (fl_div rnd
                       (foldl (\<lambda>sum val. fl_add rnd sum (fl_pow2 rnd val)) (Fin 0) values) n)
        in Some \<lparr>mean = mean, stdDev = stdDev, rms = rms,
                  minValue = Math_min values, maxValue = Math_max values,
                  count = length values\<rparr>)"

text \<open>
  \<open>PhaseNetComparisonService.calculatePerformanceMetrics\<close> in rounded arithmetic.
\<close>

definition calculatePerformanceMetrics_fl :: "rounding \<Rightarrow> matching_results \<Rightarrow> metrics" where
  "calculatePerformanceMetrics_fl rnd matchingResults =
     (let truePositives = length (matches matchingResults);
          falsePositives = length (unmatchedDetected matchingResults);
          falseNegatives = length (unmatchedReference matchingResults);
          precision =
            js_or (fl_div rnd (js_nat truePositives) (js_nat (truePositives + falsePositives)))
              (Fin 0);
          recall =
            js_or (fl_div rnd (js_nat truePositives) (js_nat (truePositives + falseNegatives)))
              (Fin 0);
          f1Score =
            js_or (fl_div rnd (fl_mul rnd (fl_mul rnd (Fin 2) precision) recall)
                     (fl_add rnd precision recall))
              (Fin 0);
          detectionRate = recall;
          falseAlarmRate =
            js_or (fl_div rnd (js_nat falsePositives) (js_nat (truePositives + falsePositives)))
              (Fin 0);
          residualStats =
            (if length (matches matchingResults) > 0
             then
               let timeResiduals = map timeDiff (matches matchingResults);
                   distanceResiduals = map distance (matches matchingResults);
                   magnitudeResiduals =
                     map (\<lambda>m. the (magnitudeDiff m))
                       (filter (\<lambda>m. magnitudeDiff m \<noteq> None) (matches matchingResults))
               in Some \<lparr>residualTime = calculateStats_fl rnd timeResiduals,
                         residualDistance = calculateStats_fl rnd distanceResiduals,
                         residualMagnitude =
                           (if length magnitudeResiduals > 0
                            then calculateStats_fl rnd magnitudeResiduals else None)\<rparr>
             else None)
      in \<lparr>precision = precision, recall = recall, f1Score = f1Score,
          detectionRate = detectionRate, falseAlarmRate = falseAlarmRate,
          truePositives = truePositives, falsePositives = falsePositives,
          falseNegatives = falseNegatives,
          metricsTotalReference = truePositives + falseNegatives,
          metricsTotalDetected = truePositives + falsePositives,
          residualStats = residualStats\<rparr>)"

section \<open>Residual statistics as the specification words them\<close>






section \<open>Loop invariant of the matcher\<close>

text \<open>
  After the reference events below \<open>k\<close> are processed: the two index sets are the
  indices of the matches, no index occurs twice, and every index is in range.
\<close>

definition loopInv :: "nat \<Rightarrow> nat \<Rightarrow> match list \<times> nat set \<times> nat set \<Rightarrow> bool" where
  "loopInv n k st =
     (case st of (ms, mr, md) \<Rightarrow>
        mr = referenceIndex ` set ms \<and> md = detectedIndex ` set ms \<and>
        distinct (map referenceIndex ms) \<and> distinct (map detectedIndex ms) \<and>
        (\<forall>m \<in> set ms. referenceIndex m < k \<and> detectedIndex m < n))"

text \<open>
  What the loops establish of every match they commit: it is the candidate object of
  the two events at its indices, and its score was below \<open>bestScore\<close>, hence below
  \<open>Infinity\<close>.
\<close>

definition committed :: "distfun \<Rightarrow> criteria \<Rightarrow> event list \<Rightarrow> event list \<Rightarrow> match \<Rightarrow> bool" where
  "committed h c refs dets m =
     (referenceIndex m < length refs \<and> detectedIndex m < length dets
      \<and> candidateMatch h c (referenceIndex m) (refs ! referenceIndex m)
            (detectedIndex m) (dets ! detectedIndex m) = Some m
      \<and> js_lt (matchScore m) PInf)"

section \<open>Roundings and the operations that do not round\<close>








section \<open>Properties\<close>

subsection \<open>The partition\<close>

lemma candidateMatch_SomeD:
  "candidateMatch h c i r j d = Some m \<Longrightarrow>
     referenceIndex m = i \<and> detectedIndex m = j \<and> referenceEvent m = r \<and> detectedEvent m = d"
  by (auto simp: candidateMatch_def Let_def split: if_splits)

lemma innerLoop_result:
  "fst (innerLoop h c md i r j ds (bm, bs)) = Some m \<Longrightarrow>
     Some m = bm \<or> (referenceIndex m = i \<and> j \<le> detectedIndex m
        \<and> detectedIndex m < j + length ds \<and> detectedIndex m \<notin> md)"
proof (induction ds arbitrary: j bm bs)
  case Nil
  then show ?case by simp
next
  case (Cons d ds)
  show ?case
  proof (cases "j \<in> md")
    case True
    with Cons.prems have "fst (innerLoop h c md i r (Suc j) ds (bm, bs)) = Some m" by simp
    from Cons.IH [OF this] show ?thesis by auto
  next
    case False
    show ?thesis
    proof (cases "candidateMatch h c i r j d")
      case None
      with False Cons.prems have "fst (innerLoop h c md i r (Suc j) ds (bm, bs)) = Some m" by simp
      from Cons.IH [OF this] show ?thesis by auto
    next
      case (Some cand)
      note fields = candidateMatch_SomeD [OF Some]
      show ?thesis
      proof (cases "js_lt (matchScore cand) bs")
        case True
        with False Some Cons.prems
        have "fst (innerLoop h c md i r (Suc j) ds (Some cand, matchScore cand)) = Some m" by simp
        from Cons.IH [OF this] fields False show ?thesis by auto
      next
        case F2: False
        with False Some Cons.prems
        have "fst (innerLoop h c md i r (Suc j) ds (bm, bs)) = Some m" by simp
        from Cons.IH [OF this] show ?thesis by auto
      qed
    qed
  qed
qed

lemma outerLoop_inv:
  "loopInv (length dets) k st \<Longrightarrow>
     loopInv (length dets) (k + length refs) (outerLoop h c dets k refs st)"
proof (induction refs arbitrary: k st)
  case Nil
  then show ?case by simp
next
  case (Cons r refs)
  obtain ms mr md where st: "st = (ms, mr, md)" by (cases st) auto
  show ?case
  proof (cases "fst (innerLoop h c md k r 0 dets (None, PInf))")
    case None
    from Cons.prems have "loopInv (length dets) (Suc k) st"
      by (auto simp: loopInv_def st less_Suc_eq)
    from Cons.IH [OF this] None show ?thesis by (simp add: st)
  next
    case (Some bm)
    from innerLoop_result [OF Some]
    have bm: "referenceIndex bm = k" "detectedIndex bm < length dets" "detectedIndex bm \<notin> md"
      by auto
    from Cons.prems bm
    have "loopInv (length dets) (Suc k) (ms @ [bm], insert k mr, insert (detectedIndex bm) md)"
      by (auto simp: loopInv_def st less_Suc_eq)
    from Cons.IH [OF this] Some show ?thesis by (simp add: st)
  qed
qed

lemma length_filterUnmatched:
  assumes "S \<subseteq> {0..<length xs}"
  shows "length (filterUnmatched S xs) + card S = length xs"
proof -
  have fin: "finite S" using assms by (rule finite_subset) simp
  have "{i. i < length xs \<and> (case enumerate 0 xs ! i of (idx, _) \<Rightarrow> idx \<notin> S)}
          = {i. i < length xs \<and> i \<notin> S}"
    by (auto simp: nth_enumerate_eq)
  then have "length (filterUnmatched S xs) = card {i. i < length xs \<and> i \<notin> S}"
    by (simp add: filterUnmatched_def length_filter_conv_card)
  also have "{i. i < length xs \<and> i \<notin> S} = {0..<length xs} - S" by auto
  also have "card \<dots> = length xs - card S"
    using assms fin by (simp add: card_Diff_subset)
  finally show ?thesis using card_mono [OF _ assms] by simp
qed

text \<open>
  C2. For every input the matcher returns a result in which no detected (candidate) index
  and no reference index occurs in two matched pairs, and in which the matched pairs and
  the unmatched events add up to the two input lists:
  \<open>|matches| + |unmatchedReference| = |referenceEvents|\<close> and
  \<open>|matches| + |unmatchedDetected| = |detectedEvents|\<close>.
\<close>

theorem matchEvents_partition:
  "\<exists>res. matchEvents h refs dets crit = Inr res \<and>
     distinct (map detectedIndex (matches res)) \<and>
     distinct (map referenceIndex (matches res)) \<and>
     length (matches res) + length (unmatchedReference res) = length refs \<and>
     length (matches res) + length (unmatchedDetected res) = length dets"
proof -
  define mc where "mc = mergeCriteria defaultCriteria crit"
  obtain ms mr md where run: "outerLoop h mc dets 0 refs ([], {}, {}) = (ms, mr, md)"
    by (cases "outerLoop h mc dets 0 refs ([], {}, {})") auto
  have "loopInv (length dets) 0 ([], {}, {})" by (simp add: loopInv_def)
  from outerLoop_inv [OF this, of refs h mc] run
  have inv: "loopInv (length dets) (length refs) (ms, mr, md)" by simp
  then have mr: "mr = referenceIndex ` set ms" and md: "md = detectedIndex ` set ms"
    and dr: "distinct (map referenceIndex ms)" and dd: "distinct (map detectedIndex ms)"
    and bound: "\<forall>m \<in> set ms. referenceIndex m < length refs \<and> detectedIndex m < length dets"
    by (simp_all add: loopInv_def)
  have cr: "card mr = length ms"
    using distinct_card [OF dr] by (simp add: mr)
  have cd: "card md = length ms"
    using distinct_card [OF dd] by (simp add: md)
  have "mr \<subseteq> {0..<length refs}" using bound by (auto simp: mr)
  from length_filterUnmatched [OF this] cr
  have nr: "length ms + length (filterUnmatched mr refs) = length refs" by simp
  have "md \<subseteq> {0..<length dets}" using bound by (auto simp: md)
  from length_filterUnmatched [OF this] cd
  have nd: "length ms + length (filterUnmatched md dets) = length dets" by simp
  show ?thesis
    using dr dd nr nd by (simp add: matchEvents_def mc_def [symmetric] run Let_def)
qed


lemmas sample_simps =
  matchEvents_def candidateMatch_def calculateMatchScore_def calculateDistance_def
  greatCircleKm_def eventAt_def noCriteria_def mergeCriteria_def defaultCriteria_def
  filterUnmatched_def enumerate_eq_zip js_sub_def js_gt_def js_or_field_def js_or_def
  js_inf_def Let_def indexPairs_def matchedPairsOf_def depthCriteria_def timeCriteria_def

theorem matchEvents_partition_witness:
  "\<exists>res. matchEvents greatCircleKm
            [eventAt ''r0'' (Fin 0) None None, eventAt ''r1'' (Fin 12000) None None]
            [eventAt ''d0'' (Fin 10000) None None, eventAt ''d1'' (Fin 90000) None None]
            noCriteria = Inr res \<and>
     map detectedIndex (matches res) = [0] \<and>
     map referenceIndex (matches res) = [0] \<and>
     length (unmatchedReference res) = 1 \<and> length (unmatchedDetected res) = 1"
  using matchEvents_partition [of greatCircleKm
            "[eventAt ''r0'' (Fin 0) None None, eventAt ''r1'' (Fin 12000) None None]"
            "[eventAt ''d0'' (Fin 10000) None None, eventAt ''d1'' (Fin 90000) None None]"
            noCriteria]
  by (simp add: sample_simps)

subsection \<open>Lists\<close>

lemma fold_min_find:
  fixes k :: "'a \<Rightarrow> real"
  shows "find (\<lambda>x. list_all (\<lambda>y. \<not> k y < k x) (b # xs)) (b # xs)
         = Some (foldl (\<lambda>b x. if k x < k b then x else b) b xs)"
proof (induction xs arbitrary: b)
  case Nil
  then show ?case by simp
next
  case (Cons x xs)
  show ?case
  proof (cases "k x < k b")
    case True
    have "find (\<lambda>z. list_all (\<lambda>y. \<not> k y < k z) (b # x # xs)) (x # xs)
          = find (\<lambda>z. list_all (\<lambda>y. \<not> k y < k z) (x # xs)) (x # xs)"
      using True by (intro find_cong refl) (auto simp: list_all_iff)
    with True Cons.IH [of x] show ?thesis by simp
  next
    case False
    show ?thesis
    proof (cases "list_all (\<lambda>y. \<not> k y < k b) xs")
      case True
      with False Cons.IH [of b] show ?thesis by simp
    next
      case nb: False
      let ?P3 = "\<lambda>z. list_all (\<lambda>y. \<not> k y < k z) (b # x # xs)"
      let ?P2 = "\<lambda>z. list_all (\<lambda>y. \<not> k y < k z) (b # xs)"
      have nb3: "\<not> ?P3 b" using nb by simp
      have nb2: "\<not> ?P2 b" using nb by simp
      have nx: "\<not> ?P3 x"
        using nb False by (auto simp: list_all_iff)
      have "find ?P3 (b # x # xs) = find ?P3 xs"
        using nb3 nx by (simp only: find.simps if_False)
      also have "\<dots> = find ?P2 xs"
        using False by (intro find_cong refl) (auto simp: list_all_iff)
      also have "\<dots> = find ?P2 (b # xs)"
        using nb2 by (simp only: find.simps if_False)
      also have "\<dots> = Some (foldl (\<lambda>b x. if k x < k b then x else b) b xs)"
        by (rule Cons.IH)
      finally show ?thesis using False by simp
    qed
  qed
qed

lemma map_filter_if:
  "(\<And>x. x \<in> set xs \<Longrightarrow> f x = (if P x then Some (g x) else None)) \<Longrightarrow>
     List.map_filter f xs = map g (filter P xs)"
  by (induction xs) (simp_all add: List.map_filter_simps)

lemma find_map_option: "find P (map g xs) = map_option g (find (P \<circ> g) xs)"
  by (induction xs) simp_all

lemma filterUnmatched_nth:
  "filterUnmatched S xs = map (nth xs) (filter (\<lambda>i. i \<notin> S) [0..<length xs])"
proof -
  have "enumerate 0 xs = enumerate 0 (map (nth xs) [0..<length xs])"
    by (simp add: map_nth)
  also have "\<dots> = map (\<lambda>k. (k, xs ! k)) [0..<length xs]"
    by (rule enumerate_map_upt)
  finally show ?thesis
    by (simp add: filterUnmatched_def filter_map comp_def)
qed

subsection \<open>What the matcher commits\<close>

lemma js_lt_PInf: "js_lt x y \<Longrightarrow> js_lt x PInf"
  by (cases x; cases y) auto

lemma innerLoop_committed:
  assumes "fst (innerLoop h c md i r j ds (bm, bs)) = Some m"
    and "\<forall>b. bm = Some b \<longrightarrow> P b"
    and "\<And>k cand. j \<le> k \<Longrightarrow> k < j + length ds \<Longrightarrow>
           candidateMatch h c i r k (ds ! (k - j)) = Some cand \<Longrightarrow>
           js_lt (matchScore cand) PInf \<Longrightarrow> P cand"
  shows "P m"
  using assms
proof (induction ds arbitrary: j bm bs)
  case Nil
  then show ?case by simp
next
  case (Cons d ds)
  have step: "\<And>k cand. Suc j \<le> k \<Longrightarrow> k < Suc j + length ds \<Longrightarrow>
           candidateMatch h c i r k (ds ! (k - Suc j)) = Some cand \<Longrightarrow>
           js_lt (matchScore cand) PInf \<Longrightarrow> P cand"
  proof -
    fix k cand
    assume k: "Suc j \<le> k" "k < Suc j + length ds"
      and cm: "candidateMatch h c i r k (ds ! (k - Suc j)) = Some cand"
      and lt: "js_lt (matchScore cand) PInf"
    from k have "k - j = Suc (k - Suc j)" by arith
    then have "(d # ds) ! (k - j) = ds ! (k - Suc j)" by simp
    with Cons.prems(3) [of k cand] k cm lt show "P cand" by simp
  qed
  show ?case
  proof (cases "j \<in> md")
    case True
    with Cons.prems(1) have "fst (innerLoop h c md i r (Suc j) ds (bm, bs)) = Some m" by simp
    from Cons.IH [OF this Cons.prems(2) step] show ?thesis by simp
  next
    case False
    show ?thesis
    proof (cases "candidateMatch h c i r j d")
      case None
      with False Cons.prems(1)
      have "fst (innerLoop h c md i r (Suc j) ds (bm, bs)) = Some m" by simp
      from Cons.IH [OF this Cons.prems(2) step] show ?thesis by simp
    next
      case (Some cand)
      show ?thesis
      proof (cases "js_lt (matchScore cand) bs")
        case True
        with False Some Cons.prems(1)
        have run: "fst (innerLoop h c md i r (Suc j) ds (Some cand, matchScore cand)) = Some m"
          by simp
        from Some True have "P cand"
          using Cons.prems(3) [of j cand] by (simp add: js_lt_PInf)
        then have "\<forall>b. Some cand = Some b \<longrightarrow> P b" by simp
        from Cons.IH [OF run this step] show ?thesis by simp
      next
        case F2: False
        with False Some Cons.prems(1)
        have "fst (innerLoop h c md i r (Suc j) ds (bm, bs)) = Some m" by simp
        from Cons.IH [OF this Cons.prems(2) step] show ?thesis by simp
      qed
    qed
  qed
qed

lemma outerLoop_committed:
  assumes "\<forall>m \<in> set ms. committed h c (pre @ refs) dets m"
  shows "\<forall>m \<in> set (fst (outerLoop h c dets (length pre) refs (ms, mr, md))).
           committed h c (pre @ refs) dets m"
  using assms
proof (induction refs arbitrary: pre ms mr md)
  case Nil
  then show ?case by simp
next
  case (Cons r refs)
  have regroup: "pre @ r # refs = (pre @ [r]) @ refs" by simp
  show ?case
  proof (cases "fst (innerLoop h c md (length pre) r 0 dets (None, PInf))")
    case None
    from Cons.IH [of ms "pre @ [r]" mr md] Cons.prems None show ?thesis
      by (simp add: regroup del: append_assoc)
  next
    case (Some bm)
    have "committed h c (pre @ r # refs) dets bm"
    proof (rule innerLoop_committed [OF Some])
      show "\<forall>b. None = Some b \<longrightarrow> committed h c (pre @ r # refs) dets b" by simp
    next
      fix k cand
      assume k: "0 \<le> k" "k < 0 + length dets"
        and cm: "candidateMatch h c (length pre) r k (dets ! (k - 0)) = Some cand"
        and lt: "js_lt (matchScore cand) PInf"
      from cm have "referenceIndex cand = length pre" "detectedIndex cand = k"
        by (auto simp: candidateMatch_def Let_def split: if_splits)
      with k cm lt show "committed h c (pre @ r # refs) dets cand"
        by (simp add: committed_def)
    qed
    with Cons.prems
    have "\<forall>m \<in> set (ms @ [bm]). committed h c ((pre @ [r]) @ refs) dets m" by simp
    from Cons.IH [of "ms @ [bm]" "pre @ [r]" "insert (length pre) mr"
        "insert (detectedIndex bm) md", OF this] Some
    show ?thesis by (simp add: regroup del: append_assoc)
  qed
qed

lemma matchEvents_committed:
  "\<exists>res. matchEvents h refs dets crit = Inr res \<and>
     matchingCriteria res = mergeCriteria defaultCriteria crit \<and>
     (\<forall>m \<in> set (matches res).
        committed h (mergeCriteria defaultCriteria crit) refs dets m)"
proof -
  define mc where "mc = mergeCriteria defaultCriteria crit"
  obtain ms mr md where run: "outerLoop h mc dets 0 refs ([], {}, {}) = (ms, mr, md)"
    by (cases "outerLoop h mc dets 0 refs ([], {}, {})") auto
  from outerLoop_committed [of "[]" h mc "[]" refs dets "{}" "{}"] run
  have "\<forall>m \<in> set ms. committed h mc refs dets m" by simp
  then show ?thesis
    by (simp add: matchEvents_def mc_def [symmetric] run Let_def)
qed

lemma js_add_NaN: "js_add x y \<noteq> NaN \<Longrightarrow> x \<noteq> NaN \<and> y \<noteq> NaN"
  by (cases x; cases y) auto

lemma js_mul_NaN: "js_mul x y \<noteq> NaN \<Longrightarrow> x \<noteq> NaN \<and> y \<noteq> NaN"
  by (cases x; cases y) auto

lemma js_div_NaN: "js_div x y \<noteq> NaN \<Longrightarrow> x \<noteq> NaN \<and> y \<noteq> NaN"
  by (cases x; cases y) auto

lemma Math_abs_NaN: "Math_abs x \<noteq> NaN \<Longrightarrow> x \<noteq> NaN"
  by (cases x) auto

lemma js_lt_not_NaN: "js_lt x y \<Longrightarrow> x \<noteq> NaN"
  by (cases x; cases y) auto

lemma score_parts:
  assumes "js_lt (calculateMatchScore td ds md dd c) PInf"
  shows "js_div td (timeWindow c) \<noteq> NaN" "js_div ds (distanceThreshold c) \<noteq> NaN"
    "md = Some m \<Longrightarrow> js_div m (magnitudeDiffThreshold c) \<noteq> NaN"
    "js_div dd (depthDiffThreshold c) \<noteq> NaN"
proof -
  let ?t = "js_mul (js_div td (timeWindow c)) (Fin (4 / 10))"
  let ?d = "js_mul (js_div ds (distanceThreshold c)) (Fin (4 / 10))"
  let ?m = "case md of Some md \<Rightarrow> js_mul (js_div md (magnitudeDiffThreshold c)) (Fin (15 / 100))
             | None \<Rightarrow> Fin 0"
  let ?e = "js_mul (js_div dd (depthDiffThreshold c)) (Fin (5 / 100))"
  from js_lt_not_NaN [OF assms]
  have "js_add (js_add (js_add ?t ?d) ?m) ?e \<noteq> NaN"
    by (simp add: calculateMatchScore_def Let_def)
  then have "?t \<noteq> NaN" "?d \<noteq> NaN" "?m \<noteq> NaN" "?e \<noteq> NaN"
    by (blast dest: js_add_NaN)+
  then show "js_div td (timeWindow c) \<noteq> NaN" "js_div ds (distanceThreshold c) \<noteq> NaN"
    "md = Some m \<Longrightarrow> js_div m (magnitudeDiffThreshold c) \<noteq> NaN"
    "js_div dd (depthDiffThreshold c) \<noteq> NaN"
    by (auto dest: js_mul_NaN)
qed

lemma ratio_nonpos:
  "\<not> js_lt x (Fin 0) \<Longrightarrow> t \<le> 0 \<Longrightarrow> \<not> js_gt x (Fin t) \<Longrightarrow> js_div x (Fin t) = NaN"
  by (cases x) (auto simp: js_gt_def)

lemma Math_abs_nonneg: "\<not> js_lt (Math_abs y) (Fin 0)"
  by (cases y) auto

lemma seconds_nonneg: "\<not> js_lt (js_div (Math_abs y) (Fin 1000)) (Fin 0)"
  by (cases y) (auto simp: js_inf_def)

text \<open>The parts of a committed match, read off the loop body.\<close>

lemma committed_parts:
  assumes "committed h c refs dets m"
  defines "r \<equiv> refs ! referenceIndex m" and "d \<equiv> dets ! detectedIndex m"
  shows "referenceEvent m = r" "detectedEvent m = d"
    "timeDiff m = js_div (Math_abs (js_sub (time r) (time d))) (Fin 1000)"
    "distance m = calculateDistance h (latitude r) (longitude r) (latitude d) (longitude d)"
    "magnitudeDiff m = (case (magnitude r, magnitude d) of
                          (Some rm, Some dm) \<Rightarrow> Some (Math_abs (js_sub rm dm))
                        | _ \<Rightarrow> None)"
    "depthDiff m = Math_abs (js_sub (js_or_field (depth_km r) (Fin 10))
                                    (js_or_field (depth_km d) (Fin 10)))"
    "matchScore m = calculateMatchScore (timeDiff m) (distance m) (magnitudeDiff m)
                      (depthDiff m) c"
    "\<not> js_gt (timeDiff m) (timeWindow c)"
    "\<not> js_gt (distance m) (distanceThreshold c)"
    "\<And>x. magnitudeDiff m = Some x \<Longrightarrow> \<not> js_gt x (magnitudeDiffThreshold c)"
    "\<not> js_gt (depthDiff m) (depthDiffThreshold c)"
    "js_lt (matchScore m) PInf"
proof -
  define i where "i = referenceIndex m"
  define j where "j = detectedIndex m"
  let ?td = "js_div (Math_abs (js_sub (time r) (time d))) (Fin 1000)"
  let ?ds = "calculateDistance h (latitude r) (longitude r) (latitude d) (longitude d)"
  let ?md = "case (magnitude r, magnitude d) of
               (Some rm, Some dm) \<Rightarrow> Some (Math_abs (js_sub rm dm))
             | _ \<Rightarrow> None"
  let ?dd = "Math_abs (js_sub (js_or_field (depth_km r) (Fin 10))
                              (js_or_field (depth_km d) (Fin 10)))"
  from assms have cm: "candidateMatch h c i r j d = Some m"
    and lt: "js_lt (matchScore m) PInf"
    by (simp_all add: committed_def i_def j_def)
  from cm have m_eq:
    "m = \<lparr>referenceIndex = i, detectedIndex = j, referenceEvent = r, detectedEvent = d,
          timeDiff = ?td, distance = ?ds, magnitudeDiff = ?md, depthDiff = ?dd,
          matchScore = calculateMatchScore ?td ?ds ?md ?dd c\<rparr>"
    and f1: "\<not> js_gt ?td (timeWindow c)"
    and f2: "\<not> js_gt ?ds (distanceThreshold c)"
    and f3: "\<not> (case ?md of Some md \<Rightarrow> js_gt md (magnitudeDiffThreshold c) | None \<Rightarrow> False)"
    and f4: "\<not> js_gt ?dd (depthDiffThreshold c)"
    by (auto simp: candidateMatch_def Let_def split: if_splits)
  show "referenceEvent m = r" "detectedEvent m = d" "timeDiff m = ?td" "distance m = ?ds"
    "magnitudeDiff m = ?md" "depthDiff m = ?dd"
    by (simp_all add: m_eq)
  show "matchScore m = calculateMatchScore (timeDiff m) (distance m) (magnitudeDiff m)
                      (depthDiff m) c"
    by (simp add: m_eq)
  show "\<not> js_gt (timeDiff m) (timeWindow c)" using f1 by (simp add: m_eq)
  show "\<not> js_gt (distance m) (distanceThreshold c)" using f2 by (simp add: m_eq)
  show "\<not> js_gt (depthDiff m) (depthDiffThreshold c)" using f4 by (simp add: m_eq)
  show "\<And>x. magnitudeDiff m = Some x \<Longrightarrow> \<not> js_gt x (magnitudeDiffThreshold c)"
    using f3 by (simp add: m_eq)
  from lt show "js_lt (matchScore m) PInf" .
qed

lemma committed_not_NaN:
  assumes "committed h c refs dets m"
  shows "time (referenceEvent m) \<noteq> NaN" "time (detectedEvent m) \<noteq> NaN"
    "distance m \<noteq> NaN"
proof -
  note p = committed_parts [OF assms]
  from p(12) have lt: "js_lt (calculateMatchScore (timeDiff m) (distance m) (magnitudeDiff m)
                      (depthDiff m) c) PInf"
    by (simp add: p(7) [symmetric])
  from score_parts(1) [OF lt] have "timeDiff m \<noteq> NaN" by (blast dest: js_div_NaN)
  then have "js_sub (time (referenceEvent m)) (time (detectedEvent m)) \<noteq> NaN"
    unfolding p(3) p(1) p(2) by (blast dest: js_div_NaN Math_abs_NaN)
  then show "time (referenceEvent m) \<noteq> NaN" "time (detectedEvent m) \<noteq> NaN"
    unfolding js_sub_def
    by (cases "time (referenceEvent m)"; cases "time (detectedEvent m)"; simp)+
  from score_parts(2) [OF lt] show "distance m \<noteq> NaN" by (blast dest: js_div_NaN)
qed

lemma matchEvents_result:
  "\<exists>res. matchEvents h refs dets crit = Inr res \<and>
     matchingCriteria res = mergeCriteria defaultCriteria crit \<and>
     unmatchedReference res = filterUnmatched (referenceIndex ` set (matches res)) refs \<and>
     unmatchedDetected res = filterUnmatched (detectedIndex ` set (matches res)) dets \<and>
     (\<forall>m \<in> set (matches res).
        committed h (mergeCriteria defaultCriteria crit) refs dets m)"
proof -
  define mc where "mc = mergeCriteria defaultCriteria crit"
  obtain ms mr md where run: "outerLoop h mc dets 0 refs ([], {}, {}) = (ms, mr, md)"
    by (cases "outerLoop h mc dets 0 refs ([], {}, {})") auto
  from outerLoop_committed [of "[]" h mc "[]" refs dets "{}" "{}"] run
  have com: "\<forall>m \<in> set ms. committed h mc refs dets m" by simp
  have "loopInv (length dets) 0 ([], {}, {})" by (simp add: loopInv_def)
  from outerLoop_inv [OF this, of refs h mc] run
  have "loopInv (length dets) (length refs) (ms, mr, md)" by simp
  then have mr: "mr = referenceIndex ` set ms" and md: "md = detectedIndex ` set ms"
    by (simp_all add: loopInv_def)
  from com show ?thesis
    by (simp add: matchEvents_def mc_def [symmetric] run Let_def mr md)
qed

lemma in_filterUnmatched: "i < length xs \<Longrightarrow> i \<notin> S \<Longrightarrow> xs ! i \<in> set (filterUnmatched S xs)"
  by (simp add: filterUnmatched_nth)

text \<open>
  C4, amended. The matcher reports no error, whatever the events hold: it returns a
  result for every input. An event whose time is \<open>NaN\<close> (an unparseable time
  string), or whose distance to the other event is \<open>NaN\<close>, is in no matched pair:
  every matched pair consists of the two events at its indices, both with a time that
  is not \<open>NaN\<close> and at a distance that is not \<open>NaN\<close>; and an event whose time
  is \<open>NaN\<close> is returned among the unmatched events of its catalog.
\<close>

theorem matchEvents_no_error:
  "\<exists>res. matchEvents h refs dets crit = Inr res \<and>
     (\<forall>m \<in> set (matches res).
        referenceEvent m = refs ! referenceIndex m \<and>
        detectedEvent m = dets ! detectedIndex m \<and>
        time (referenceEvent m) \<noteq> NaN \<and> time (detectedEvent m) \<noteq> NaN \<and>
        calculateDistance h (latitude (referenceEvent m)) (longitude (referenceEvent m))
          (latitude (detectedEvent m)) (longitude (detectedEvent m)) \<noteq> NaN) \<and>
     (\<forall>i. i < length refs \<and> time (refs ! i) = NaN
          \<longrightarrow> refs ! i \<in> set (unmatchedReference res)) \<and>
     (\<forall>j. j < length dets \<and> time (dets ! j) = NaN
          \<longrightarrow> dets ! j \<in> set (unmatchedDetected res))"
proof -
  define mc where "mc = mergeCriteria defaultCriteria crit"
  from matchEvents_result [of h refs dets crit] obtain res where
    res: "matchEvents h refs dets crit = Inr res"
    and ur: "unmatchedReference res = filterUnmatched (referenceIndex ` set (matches res)) refs"
    and ud: "unmatchedDetected res = filterUnmatched (detectedIndex ` set (matches res)) dets"
    and com: "\<forall>m \<in> set (matches res). committed h mc refs dets m"
    unfolding mc_def by blast
  have pairs: "\<forall>m \<in> set (matches res).
        referenceEvent m = refs ! referenceIndex m \<and>
        detectedEvent m = dets ! detectedIndex m \<and>
        time (referenceEvent m) \<noteq> NaN \<and> time (detectedEvent m) \<noteq> NaN \<and>
        calculateDistance h (latitude (referenceEvent m)) (longitude (referenceEvent m))
          (latitude (detectedEvent m)) (longitude (detectedEvent m)) \<noteq> NaN"
  proof
    fix m assume "m \<in> set (matches res)"
    with com have c: "committed h mc refs dets m" by blast
    note p = committed_parts [OF c] and n = committed_not_NaN [OF c]
    from p(1,2) n p(4) show "referenceEvent m = refs ! referenceIndex m \<and>
        detectedEvent m = dets ! detectedIndex m \<and>
        time (referenceEvent m) \<noteq> NaN \<and> time (detectedEvent m) \<noteq> NaN \<and>
        calculateDistance h (latitude (referenceEvent m)) (longitude (referenceEvent m))
          (latitude (detectedEvent m)) (longitude (detectedEvent m)) \<noteq> NaN"
      by simp
  qed
  have r: "refs ! i \<in> set (unmatchedReference res)"
    if "i < length refs \<and> time (refs ! i) = NaN" for i
  proof -
    have "i \<notin> referenceIndex ` set (matches res)"
    proof
      assume "i \<in> referenceIndex ` set (matches res)"
      then obtain m where m: "m \<in> set (matches res)" "referenceIndex m = i" by auto
      with pairs that show False by auto
    qed
    with that show ?thesis unfolding ur by (simp add: in_filterUnmatched)
  qed
  have d: "dets ! j \<in> set (unmatchedDetected res)"
    if "j < length dets \<and> time (dets ! j) = NaN" for j
  proof -
    have "j \<notin> detectedIndex ` set (matches res)"
    proof
      assume "j \<in> detectedIndex ` set (matches res)"
      then obtain m where m: "m \<in> set (matches res)" "detectedIndex m = j" by auto
      with pairs that show False by auto
    qed
    with that show ?thesis unfolding ud by (simp add: in_filterUnmatched)
  qed
  from res pairs r d show ?thesis by blast
qed

text \<open>
  C5, amended. The matcher does not check the criteria: for every criteria value the run
  returns a result, whose \<open>matchingCriteria\<close> are the criteria given over the
  defaults, unchanged, and the filters and the scorer use the thresholds as they are.
  With a \<open>timeWindow\<close> or a \<open>depthDiffThreshold\<close> that is zero or negative no
  pair is matched; with such a \<open>magnitudeDiffThreshold\<close> no pair with two magnitudes
  is matched; with such a \<open>distanceThreshold\<close> only a pair at a negative distance is.
\<close>

theorem matchEvents_no_validation:
  "\<exists>res. matchEvents h refs dets crit = Inr res \<and>
     matchingCriteria res = mergeCriteria defaultCriteria crit \<and>
     (\<forall>t. timeWindow (matchingCriteria res) = Fin t \<and> t \<le> 0 \<longrightarrow> matches res = []) \<and>
     (\<forall>t. depthDiffThreshold (matchingCriteria res) = Fin t \<and> t \<le> 0
          \<longrightarrow> matches res = []) \<and>
     (\<forall>t. magnitudeDiffThreshold (matchingCriteria res) = Fin t \<and> t \<le> 0
          \<longrightarrow> (\<forall>m \<in> set (matches res). magnitudeDiff m = None)) \<and>
     (\<forall>t. distanceThreshold (matchingCriteria res) = Fin t \<and> t \<le> 0
          \<longrightarrow> (\<forall>m \<in> set (matches res). js_lt (distance m) (Fin 0)))"
proof -
  define mc where "mc = mergeCriteria defaultCriteria crit"
  from matchEvents_committed [of h refs dets crit] obtain res where
    res: "matchEvents h refs dets crit = Inr res"
    and mcr: "matchingCriteria res = mc"
    and com: "\<forall>m \<in> set (matches res). committed h mc refs dets m"
    unfolding mc_def by blast
  have parts: "\<And>m. m \<in> set (matches res) \<Longrightarrow>
      js_lt (calculateMatchScore (timeDiff m) (distance m) (magnitudeDiff m) (depthDiff m) mc) PInf"
    using com committed_parts(7,12) by metis
  have tw: "matches res = []" if "timeWindow mc = Fin t" "t \<le> 0" for t
  proof (rule ccontr)
    assume "matches res \<noteq> []"
    then obtain m where m: "m \<in> set (matches res)" by (cases "matches res") auto
    with com have c: "committed h mc refs dets m" by blast
    note p = committed_parts [OF c]
    have "\<not> js_lt (timeDiff m) (Fin 0)" unfolding p(3) by (rule seconds_nonneg)
    from ratio_nonpos [OF this that(2)] p(8) that(1)
    have "js_div (timeDiff m) (timeWindow mc) = NaN" by simp
    with score_parts(1) [OF parts [OF m]] show False by simp
  qed
  have dd: "matches res = []" if "depthDiffThreshold mc = Fin t" "t \<le> 0" for t
  proof (rule ccontr)
    assume "matches res \<noteq> []"
    then obtain m where m: "m \<in> set (matches res)" by (cases "matches res") auto
    with com have c: "committed h mc refs dets m" by blast
    note p = committed_parts [OF c]
    have "\<not> js_lt (depthDiff m) (Fin 0)" unfolding p(6) by (rule Math_abs_nonneg)
    from ratio_nonpos [OF this that(2)] p(11) that(1)
    have "js_div (depthDiff m) (depthDiffThreshold mc) = NaN" by simp
    with score_parts(4) [OF parts [OF m]] show False by simp
  qed
  have mg: "magnitudeDiff m = None"
    if "magnitudeDiffThreshold mc = Fin t" "t \<le> 0" "m \<in> set (matches res)" for t m
  proof (rule ccontr)
    assume "magnitudeDiff m \<noteq> None"
    then obtain x where x: "magnitudeDiff m = Some x" by auto
    from that(3) com have c: "committed h mc refs dets m" by blast
    note p = committed_parts [OF c]
    from x p(5) have "\<exists>y. x = Math_abs y" by (auto split: option.splits)
    then have "\<not> js_lt x (Fin 0)" by (auto simp: Math_abs_nonneg)
    from ratio_nonpos [OF this that(2)] p(10) [OF x] that(1)
    have "js_div x (magnitudeDiffThreshold mc) = NaN" by simp
    with score_parts(3) [OF parts [OF that(3)] x] show False by simp
  qed
  have ds: "js_lt (distance m) (Fin 0)"
    if "distanceThreshold mc = Fin t" "t \<le> 0" "m \<in> set (matches res)" for t m
  proof (rule ccontr)
    assume n: "\<not> js_lt (distance m) (Fin 0)"
    from that(3) com have c: "committed h mc refs dets m" by blast
    note p = committed_parts [OF c]
    from ratio_nonpos [OF n that(2)] p(9) that(1)
    have "js_div (distance m) (distanceThreshold mc) = NaN" by simp
    with score_parts(2) [OF parts [OF that(3)]] show False by simp
  qed
  from res mcr tw dd mg ds show ?thesis
    unfolding mc_def [symmetric] by (intro exI [of _ res]) auto
qed

text \<open>
  A reference event with an unparseable time, and one with a \<open>NaN\<close> latitude: the
  matcher returns a result, with the event among the unmatched reference events.
\<close>

theorem matchEvents_no_error_counterexample:
  "matchEvents greatCircleKm
     [eventAt ''r'' NaN None None] [eventAt ''d'' (Fin 0) None None] noCriteria
   = Inr \<lparr>matches = [],
          unmatchedReference = [eventAt ''r'' NaN None None],
          unmatchedDetected = [eventAt ''d'' (Fin 0) None None],
          matchingCriteria = defaultCriteria,
          summary = \<lparr>totalReference = 1, totalDetected = 1, matchedPairs = 0,
                     unmatchedReferenceCount = 1, unmatchedDetectedCount = 1\<rparr>\<rparr>
   \<and> matchEvents greatCircleKm
     [(eventAt ''r'' (Fin 0) None None)\<lparr>latitude := NaN\<rparr>]
     [eventAt ''d'' (Fin 0) None None] noCriteria
   = Inr \<lparr>matches = [],
          unmatchedReference = [(eventAt ''r'' (Fin 0) None None)\<lparr>latitude := NaN\<rparr>],
          unmatchedDetected = [eventAt ''d'' (Fin 0) None None],
          matchingCriteria = defaultCriteria,
          summary = \<lparr>totalReference = 1, totalDetected = 1, matchedPairs = 0,
                     unmatchedReferenceCount = 1, unmatchedDetectedCount = 1\<rparr>\<rparr>"
  by (simp add: sample_simps)

theorem matchEvents_no_error_witness:
  "matchedPairsOf (matchEvents greatCircleKm
     [eventAt ''r0'' NaN None None, eventAt ''r1'' (Fin 5000) None None]
     [eventAt ''d0'' (Fin 0) None None] noCriteria) = [(1, 0)]"
  using matchEvents_no_error [of greatCircleKm
     "[eventAt ''r0'' NaN None None, eventAt ''r1'' (Fin 5000) None None]"
     "[eventAt ''d0'' (Fin 0) None None]" noCriteria]
  by (simp add: sample_simps)

text \<open>
  A \<open>timeWindow\<close> of \<open>-5\<close> and one of \<open>0\<close>: the matcher returns a result that
  carries the threshold as it was given.
\<close>

theorem matchEvents_no_validation_counterexample:
  "matchEvents greatCircleKm
     [eventAt ''r'' (Fin 0) None None] [eventAt ''d'' (Fin 0) None None]
     (timeCriteria (Fin (- 5)))
   = Inr \<lparr>matches = [],
          unmatchedReference = [eventAt ''r'' (Fin 0) None None],
          unmatchedDetected = [eventAt ''d'' (Fin 0) None None],
          matchingCriteria = defaultCriteria\<lparr>timeWindow := Fin (- 5)\<rparr>,
          summary = \<lparr>totalReference = 1, totalDetected = 1, matchedPairs = 0,
                     unmatchedReferenceCount = 1, unmatchedDetectedCount = 1\<rparr>\<rparr>
   \<and> matchEvents greatCircleKm
     [eventAt ''r'' (Fin 0) None None] [eventAt ''d'' (Fin 0) None None]
     (timeCriteria (Fin 0))
   = Inr \<lparr>matches = [],
          unmatchedReference = [eventAt ''r'' (Fin 0) None None],
          unmatchedDetected = [eventAt ''d'' (Fin 0) None None],
          matchingCriteria = defaultCriteria\<lparr>timeWindow := Fin 0\<rparr>,
          summary = \<lparr>totalReference = 1, totalDetected = 1, matchedPairs = 0,
                     unmatchedReferenceCount = 1, unmatchedDetectedCount = 1\<rparr>\<rparr>"
  by (simp add: sample_simps)

theorem matchEvents_no_validation_witness:
  "matchedPairsOf (matchEvents greatCircleKm
     [eventAt ''r'' (Fin 0) None None] [eventAt ''d'' (Fin 1000) None None]
     (depthCriteria (Fin (- 1)))) = []"
  using matchEvents_no_validation [of greatCircleKm
     "[eventAt ''r'' (Fin 0) None None]" "[eventAt ''d'' (Fin 1000) None None]"
     "depthCriteria (Fin (- 1))"]
  by (simp add: sample_simps)

subsection \<open>A depth of zero\<close>



lemma js_or_field_dropZeroDepth:
  "js_or_field (depth_km (dropZeroDepth e)) (Fin 10) = js_or_field (depth_km e) (Fin 10)"
  by (simp add: dropZeroDepth_def js_or_field_def js_or_def)

lemma dropZeroDepth_fields:
  "time (dropZeroDepth e) = time e" "latitude (dropZeroDepth e) = latitude e"
  "longitude (dropZeroDepth e) = longitude e" "magnitude (dropZeroDepth e) = magnitude e"
  by (simp_all add: dropZeroDepth_def)

lemma candidateMatch_dropZeroDepth:
  "candidateMatch h c i (dropZeroDepth r) j (dropZeroDepth d)
   = map_option dropZeroDepthIn (candidateMatch h c i r j d)"
  by (simp add: candidateMatch_def Let_def js_or_field_dropZeroDepth dropZeroDepth_fields
      dropZeroDepthIn_def)

lemma dropZeroDepthIn_fields:
  "matchScore (dropZeroDepthIn m) = matchScore m"
  "referenceIndex (dropZeroDepthIn m) = referenceIndex m"
  "detectedIndex (dropZeroDepthIn m) = detectedIndex m"
  by (simp_all add: dropZeroDepthIn_def)

lemma innerLoop_dropZeroDepth:
  "innerLoop h c md i (dropZeroDepth r) j (map dropZeroDepth ds)
     (map_option dropZeroDepthIn bm, bs)
   = map_prod (map_option dropZeroDepthIn) id (innerLoop h c md i r j ds (bm, bs))"
proof (induction ds arbitrary: j bm bs)
  case Nil
  then show ?case by simp
next
  case (Cons d ds)
  show ?case
  proof (cases "candidateMatch h c i r j d")
    case None
    then show ?thesis
      using Cons.IH [of "Suc j" bm bs] by (simp add: candidateMatch_dropZeroDepth)
  next
    case (Some cand)
    then show ?thesis
      using Cons.IH [of "Suc j" bm bs] Cons.IH [of "Suc j" "Some cand" "matchScore cand"]
      by (simp add: candidateMatch_dropZeroDepth dropZeroDepthIn_fields)
  qed
qed

lemma outerLoop_dropZeroDepth:
  "outerLoop h c (map dropZeroDepth dets) i (map dropZeroDepth refs)
     (map dropZeroDepthIn ms, mr, md)
   = (case outerLoop h c dets i refs (ms, mr, md) of
        (ms', mr', md') \<Rightarrow> (map dropZeroDepthIn ms', mr', md'))"
proof (induction refs arbitrary: i ms mr md)
  case Nil
  then show ?case by simp
next
  case (Cons r refs)
  have inner: "fst (innerLoop h c md i (dropZeroDepth r) 0 (map dropZeroDepth dets) (None, PInf))
        = map_option dropZeroDepthIn (fst (innerLoop h c md i r 0 dets (None, PInf)))"
    using innerLoop_dropZeroDepth [of h c md i r 0 dets None PInf] by simp
  show ?case
  proof (cases "fst (innerLoop h c md i r 0 dets (None, PInf))")
    case None
    with inner Cons.IH [of "Suc i" ms mr md] show ?thesis by simp
  next
    case (Some bm)
    with inner
      Cons.IH [of "Suc i" "ms @ [bm]" "insert i mr" "insert (detectedIndex bm) md"]
    show ?thesis by (simp add: dropZeroDepthIn_fields)
  qed
qed

lemma indexPairs_dropZeroDepthIn: "indexPairs (map dropZeroDepthIn ms) = indexPairs ms"
  by (simp add: indexPairs_def dropZeroDepthIn_fields comp_def)

lemma matchEvents_dropZeroDepth:
  "matchedPairsOf (matchEvents h (map dropZeroDepth refs) (map dropZeroDepth dets) crit)
   = matchedPairsOf (matchEvents h refs dets crit)"
proof -
  define mc where "mc = mergeCriteria defaultCriteria crit"
  obtain ms mr md where run: "outerLoop h mc dets 0 refs ([], {}, {}) = (ms, mr, md)"
    by (cases "outerLoop h mc dets 0 refs ([], {}, {})") auto
  with outerLoop_dropZeroDepth [of h mc dets 0 refs "[]" "{}" "{}"]
  have run': "outerLoop h mc (map dropZeroDepth dets) 0 (map dropZeroDepth refs) ([], {}, {})
              = (map dropZeroDepthIn ms, mr, md)" by simp
  show ?thesis
    by (simp add: matchEvents_def mc_def [symmetric] run run' Let_def matchedPairsOf_def
        indexPairs_dropZeroDepthIn)
qed

text \<open>
  C10. An event whose \<open>depth_km\<close> is exactly 0 enters the depth difference with the
  depth 10 km: as reference or as detected event it is filtered and scored as the same
  event without a depth is, the two candidate objects differing in the event they carry
  only; and the matcher pairs the same indices when the field is removed from every
  event of depth 0.
\<close>

theorem zero_depth_as_missing:
  "(depth_km e = Some (Fin 0) \<longrightarrow>
      js_or_field (depth_km e) (Fin 10) = Fin 10
      \<and> candidateMatch h c i e j d
        = map_option (\<lambda>m. m\<lparr>referenceEvent := e\<rparr>)
            (candidateMatch h c i (e\<lparr>depth_km := None\<rparr>) j d)
      \<and> candidateMatch h c i r j e
        = map_option (\<lambda>m. m\<lparr>detectedEvent := e\<rparr>)
            (candidateMatch h c i r j (e\<lparr>depth_km := None\<rparr>)))
   \<and> matchedPairsOf (matchEvents h (map dropZeroDepth refs) (map dropZeroDepth dets) crit)
     = matchedPairsOf (matchEvents h refs dets crit)"
  using matchEvents_dropZeroDepth [of h refs dets crit]
  by (simp add: candidateMatch_def Let_def js_or_field_def js_or_def)

theorem zero_depth_as_missing_witness:
  "map_option depthDiff
     (candidateMatch greatCircleKm defaultCriteria 0 (eventAt ''r'' (Fin 0) (Some (Fin 0)) None)
        0 (eventAt ''d'' (Fin 0) (Some (Fin 55)) None)) = Some (Fin 45)
   \<and> map_option depthDiff
     (candidateMatch greatCircleKm defaultCriteria 0 (eventAt ''r'' (Fin 0) None None)
        0 (eventAt ''d'' (Fin 0) (Some (Fin 55)) None)) = Some (Fin 45)
   \<and> matchedPairsOf (matchEvents greatCircleKm
        [eventAt ''r'' (Fin 0) (Some (Fin 0)) None]
        [eventAt ''d'' (Fin 0) (Some (Fin 55)) None] noCriteria) = [(0, 0)]
   \<and> matchedPairsOf (matchEvents greatCircleKm
        (map dropZeroDepth [eventAt ''r'' (Fin 0) (Some (Fin 0)) None])
        (map dropZeroDepth [eventAt ''d'' (Fin 0) (Some (Fin 55)) None]) noCriteria) = [(0, 0)]
   \<and> dropZeroDepth (eventAt ''r'' (Fin 0) (Some (Fin 0)) None) = eventAt ''r'' (Fin 0) None None"
  using zero_depth_as_missing [of "eventAt ''r'' (Fin 0) (Some (Fin 0)) None"
      greatCircleKm defaultCriteria 0 0 "eventAt ''d'' (Fin 0) (Some (Fin 55)) None"]
  by (simp add: sample_simps dropZeroDepth_def)

subsection \<open>The roles of the two catalogs\<close>

text \<open>
  C9. Matching is not commutative in the roles of the two catalogs: for every distance
  function that is 0 between two events at latitude 0 and longitude 0, there are two
  reference events and two candidate events such that the matched pairs of the run with
  the lists swapped, read back as (reference, candidate) pairs, are not the matched
  pairs of the original run.
\<close>

theorem matchEvents_not_commutative:
  assumes "h (Fin 0) (Fin 0) (Fin 0) (Fin 0) = Fin 0"
  shows "\<exists>refs dets. length refs = 2 \<and> length dets = 2 \<and>
           set (matchedPairsOf (matchEvents h refs dets noCriteria))
           \<noteq> set (map prod.swap (matchedPairsOf (matchEvents h dets refs noCriteria)))"
proof -
  let ?refs = "[eventAt ''x0'' (Fin 0) None None, eventAt ''x1'' (Fin 12000) None None]"
  let ?dets = "[eventAt ''y0'' (Fin 10000) None None, eventAt ''y1'' (Fin 40000) None None]"
  have 1: "matchedPairsOf (matchEvents h ?refs ?dets noCriteria) = [(0, 0), (1, 1)]"
    using assms
    by (simp add: matchEvents_def candidateMatch_def calculateMatchScore_def
        calculateDistance_def eventAt_def noCriteria_def mergeCriteria_def defaultCriteria_def
        filterUnmatched_def enumerate_eq_zip js_sub_def js_gt_def js_or_field_def
        Let_def indexPairs_def matchedPairsOf_def)
  have 2: "matchedPairsOf (matchEvents h ?dets ?refs noCriteria) = [(0, 1)]"
    using assms
    by (simp add: matchEvents_def candidateMatch_def calculateMatchScore_def
        calculateDistance_def eventAt_def noCriteria_def mergeCriteria_def defaultCriteria_def
        filterUnmatched_def enumerate_eq_zip js_sub_def js_gt_def js_or_field_def
        Let_def indexPairs_def matchedPairsOf_def)
  have "set (matchedPairsOf (matchEvents h ?refs ?dets noCriteria))
        \<noteq> set (map prod.swap (matchedPairsOf (matchEvents h ?dets ?refs noCriteria)))"
    unfolding 1 2 by simp
  then show ?thesis
    by (intro exI [of _ ?refs] exI [of _ ?dets]) simp
qed

theorem matchEvents_not_commutative_witness:
  "greatCircleKm (Fin 0) (Fin 0) (Fin 0) (Fin 0) = Fin 0
   \<and> (\<exists>refs dets. length refs = 2 \<and> length dets = 2 \<and>
           set (matchedPairsOf (matchEvents greatCircleKm refs dets noCriteria))
           \<noteq> set (map prod.swap
                     (matchedPairsOf (matchEvents greatCircleKm dets refs noCriteria))))
   \<and> matchedPairsOf (matchEvents greatCircleKm
        [eventAt ''x0'' (Fin 0) None None, eventAt ''x1'' (Fin 12000) None None]
        [eventAt ''y0'' (Fin 10000) None None, eventAt ''y1'' (Fin 40000) None None]
        noCriteria) = [(0, 0), (1, 1)]
   \<and> matchedPairsOf (matchEvents greatCircleKm
        [eventAt ''y0'' (Fin 10000) None None, eventAt ''y1'' (Fin 40000) None None]
        [eventAt ''x0'' (Fin 0) None None, eventAt ''x1'' (Fin 12000) None None]
        noCriteria) = [(0, 1)]"
proof -
  have h: "greatCircleKm (Fin 0) (Fin 0) (Fin 0) (Fin 0) = Fin 0"
    by (simp add: greatCircleKm_def)
  have 1: "matchedPairsOf (matchEvents greatCircleKm
        [eventAt ''x0'' (Fin 0) None None, eventAt ''x1'' (Fin 12000) None None]
        [eventAt ''y0'' (Fin 10000) None None, eventAt ''y1'' (Fin 40000) None None]
        noCriteria) = [(0, 0), (1, 1)]"
    by (simp add: sample_simps)
  have 2: "matchedPairsOf (matchEvents greatCircleKm
        [eventAt ''y0'' (Fin 10000) None None, eventAt ''y1'' (Fin 40000) None None]
        [eventAt ''x0'' (Fin 0) None None, eventAt ''x1'' (Fin 12000) None None]
        noCriteria) = [(0, 1)]"
    by (simp add: sample_simps)
  from matchEvents_not_commutative [of greatCircleKm, OF h] h 1 2 show ?thesis by blast
qed

subsection \<open>The metrics\<close>






subsection \<open>The minimum and the maximum of finite numbers\<close>





subsection \<open>The exact arithmetic as an instance\<close>

lemma fl_add_Fin: "fl_add Fin = js_add"
proof (intro ext)
  fix x y show "fl_add Fin x y = js_add x y" by (cases x; cases y) simp_all
qed

lemma fl_sub_Fin: "fl_sub Fin = js_sub"
  by (intro ext) (simp add: fl_sub_def js_sub_def fl_add_Fin)

lemma fl_mul_Fin: "fl_mul Fin = js_mul"
proof (intro ext)
  fix x y show "fl_mul Fin x y = js_mul x y" by (cases x; cases y) simp_all
qed

lemma fl_div_Fin: "fl_div Fin = js_div"
proof (intro ext)
  fix x y show "fl_div Fin x y = js_div x y" by (cases x; cases y) simp_all
qed

lemma fl_sqrt_Fin: "fl_sqrt Fin = Math_sqrt"
proof (intro ext)
  fix x show "fl_sqrt Fin x = Math_sqrt x" by (cases x) simp_all
qed

lemma fl_pow2_Fin: "fl_pow2 Fin = Math_pow2"
  by (intro ext) (simp add: fl_pow2_def Math_pow2_def fl_mul_Fin)

lemmas fl_Fin = fl_add_Fin fl_sub_Fin fl_mul_Fin fl_div_Fin fl_sqrt_Fin fl_pow2_Fin

lemma calculateMatchScore_fl_Fin: "calculateMatchScore_fl Fin = calculateMatchScore"
  unfolding calculateMatchScore_fl_def calculateMatchScore_def fl_Fin by (rule refl)

lemma candidateMatch_fl_Fin: "candidateMatch_fl Fin h c i r j d = candidateMatch h c i r j d"
  unfolding candidateMatch_fl_def candidateMatch_def fl_Fin calculateMatchScore_fl_Fin
  by (rule refl)

lemma innerLoop_fl_Fin:
  "innerLoop_fl Fin h c md i r j ds best = innerLoop h c md i r j ds best"
proof (induction ds arbitrary: j best)
  case Nil
  then show ?case by simp
next
  case (Cons d ds)
  obtain bm bs where best: "best = (bm, bs)" by (cases best) auto
  show ?case by (simp add: best Cons.IH candidateMatch_fl_Fin split: option.split)
qed

lemma outerLoop_fl_Fin: "outerLoop_fl Fin h c dets i refs st = outerLoop h c dets i refs st"
proof (induction refs arbitrary: i st)
  case Nil
  then show ?case by simp
next
  case (Cons r refs)
  obtain ms mr md where st: "st = (ms, mr, md)" by (cases st) auto
  show ?case by (simp add: st Cons.IH innerLoop_fl_Fin split: option.split)
qed

lemma matchEvents_fl_Fin: "matchEvents_fl Fin h refs dets crit = matchEvents h refs dets crit"
  unfolding matchEvents_fl_def matchEvents_def outerLoop_fl_Fin by (rule refl)

lemma calculateStats_fl_Fin: "calculateStats_fl Fin = calculateStats"
  unfolding calculateStats_fl_def calculateStats_def fl_Fin by (rule refl)

lemma calculatePerformanceMetrics_fl_Fin:
  "calculatePerformanceMetrics_fl Fin res = calculatePerformanceMetrics res"
  unfolding calculatePerformanceMetrics_fl_def calculatePerformanceMetrics_def fl_Fin
    calculateStats_fl_Fin
  by (rule refl)

subsection \<open>The index sets of the rounded loops\<close>

lemma candidateMatch_fl_SomeD:
  "candidateMatch_fl rnd h c i r j d = Some m \<Longrightarrow>
     referenceIndex m = i \<and> detectedIndex m = j \<and> referenceEvent m = r \<and> detectedEvent m = d"
  by (auto simp: candidateMatch_fl_def Let_def split: if_splits)

lemma innerLoop_fl_result:
  "fst (innerLoop_fl rnd h c md i r j ds (bm, bs)) = Some m \<Longrightarrow>
     Some m = bm \<or> (referenceIndex m = i \<and> j \<le> detectedIndex m
        \<and> detectedIndex m < j + length ds \<and> detectedIndex m \<notin> md)"
proof (induction ds arbitrary: j bm bs)
  case Nil
  then show ?case by simp
next
  case (Cons d ds)
  show ?case
  proof (cases "j \<in> md")
    case True
    with Cons.prems have "fst (innerLoop_fl rnd h c md i r (Suc j) ds (bm, bs)) = Some m"
      by simp
    from Cons.IH [OF this] show ?thesis by auto
  next
    case False
    show ?thesis
    proof (cases "candidateMatch_fl rnd h c i r j d")
      case None
      with False Cons.prems
      have "fst (innerLoop_fl rnd h c md i r (Suc j) ds (bm, bs)) = Some m" by simp
      from Cons.IH [OF this] show ?thesis by auto
    next
      case (Some cand)
      note fields = candidateMatch_fl_SomeD [OF Some]
      show ?thesis
      proof (cases "js_lt (matchScore cand) bs")
        case True
        with False Some Cons.prems
        have "fst (innerLoop_fl rnd h c md i r (Suc j) ds (Some cand, matchScore cand)) = Some m"
          by simp
        from Cons.IH [OF this] fields False show ?thesis by auto
      next
        case F2: False
        with False Some Cons.prems
        have "fst (innerLoop_fl rnd h c md i r (Suc j) ds (bm, bs)) = Some m" by simp
        from Cons.IH [OF this] show ?thesis by auto
      qed
    qed
  qed
qed

lemma outerLoop_fl_inv:
  "loopInv (length dets) k st \<Longrightarrow>
     loopInv (length dets) (k + length refs) (outerLoop_fl rnd h c dets k refs st)"
proof (induction refs arbitrary: k st)
  case Nil
  then show ?case by simp
next
  case (Cons r refs)
  obtain ms mr md where st: "st = (ms, mr, md)" by (cases st) auto
  show ?case
  proof (cases "fst (innerLoop_fl rnd h c md k r 0 dets (None, PInf))")
    case None
    from Cons.prems have "loopInv (length dets) (Suc k) st"
      by (auto simp: loopInv_def st less_Suc_eq)
    from Cons.IH [OF this] None show ?thesis by (simp add: st)
  next
    case (Some bm)
    from innerLoop_fl_result [OF Some]
    have bm: "referenceIndex bm = k" "detectedIndex bm < length dets" "detectedIndex bm \<notin> md"
      by auto
    from Cons.prems bm
    have "loopInv (length dets) (Suc k) (ms @ [bm], insert k mr, insert (detectedIndex bm) md)"
      by (auto simp: loopInv_def st less_Suc_eq)
    from Cons.IH [OF this] Some show ?thesis by (simp add: st)
  qed
qed

subsection \<open>The rounding of the doubles\<close>

lemma rnd64_0: "rnd64 0 = Fin 0"
  by (simp add: rnd64_def)

lemma rnd64_minus: "rnd64 (- x) = js_neg (rnd64 x)"
  by (simp add: rnd64_def Let_def)

lemma rnd64_pos:
  "0 < x \<Longrightarrow>
     rnd64 x = (let u = 2 powi (max \<lfloor>log 2 x\<rfloor> (- 1022) - 52);
                    y = of_int (roundHalfEven (x / u)) * u
                in if 2 ^ 1024 \<le> y then PInf else Fin y)"
  by (simp add: rnd64_def Let_def)

text \<open>
  A certificate for one rounding: \<open>x\<close> lies in the binade whose doubles are the
  multiples of \<open>u = 2 ^ k\<close>, and \<open>n\<close> is the multiple nearest to it.
\<close>

lemma rnd64_binade:
  fixes x u :: real
  assumes u: "u = 2 powi k" and k: "- 1074 \<le> k"
    and lo: "2 ^ 52 * u \<le> x" and hi: "x < 2 ^ 53 * u"
  shows "rnd64 x = (let y = of_int (roundHalfEven (x / u)) * u
                    in if 2 ^ 1024 \<le> y then PInf else Fin y)"
proof -
  have upos: "0 < u" by (simp add: u)
  have "0 < 2 ^ 52 * u" using upos by simp
  with lo have x: "0 < x" by linarith
  have "(2::real) powi (k + 52) = 2 powi k * 2 powi 52"
    by (rule power_int_add) simp
  then have p52: "(2::real) powi (k + 52) = 2 ^ 52 * u"
    by (simp add: u)
  have "(2::real) powi (k + 53) = 2 powi k * 2 powi 53"
    by (rule power_int_add) simp
  then have p53: "(2::real) powi (k + 52 + 1) = 2 ^ 53 * u"
    by (simp add: u add.assoc)
  have r52: "2 powr real_of_int (k + 52) = (2::real) powi (k + 52)"
    by (rule powr_real_of_int') simp_all
  have r53: "2 powr (real_of_int (k + 52) + 1) = (2::real) powi (k + 52 + 1)"
    using powr_real_of_int' [of "2::real" "k + 52 + 1"] by simp
  have "2 powr real_of_int (k + 52) \<le> x \<and> x < 2 powr (real_of_int (k + 52) + 1)"
    unfolding r52 r53 p52 p53 using lo hi by simp
  then have "\<lfloor>log 2 x\<rfloor> = k + 52"
    using x floor_log_eq_powr_iff [of x 2 "k + 52"] by simp
  then have e: "max \<lfloor>log 2 x\<rfloor> (- 1022) = k + 52"
    using k by simp
  have pu: "2 powi (max \<lfloor>log 2 x\<rfloor> (- 1022) - 52) = u"
    by (simp only: e u) simp
  show ?thesis
    unfolding rnd64_pos [OF x] Let_def pu by (rule refl)
qed

lemma rnd64_normal:
  fixes x u :: real
  assumes "u = 2 powi k" and "- 1074 \<le> k"
    and "2 ^ 52 * u \<le> x" and "x < 2 ^ 53 * u"
    and n: "roundHalfEven (x / u) = n" and fin: "of_int n * u < 2 ^ 1024"
  shows "rnd64 x = Fin (of_int n * u)"
  using rnd64_binade [OF assms(1-4)] fin unfolding n Let_def by simp

lemma roundHalfEven_of_int: "roundHalfEven (of_int z) = z"
  by (simp add: roundHalfEven_def)

text \<open>A double is rounded to itself.\<close>

lemma rnd64_exact:
  fixes m k :: int
  assumes m: "0 < m" "m < 2 ^ 53" and k: "- 1074 \<le> k" "k \<le> 970"
  shows "rnd64 (of_int m * 2 powi k) = Fin (of_int m * 2 powi k)"
proof -
  let ?x = "of_int m * 2 powi k :: real"
  have x: "0 < ?x" using m by simp
  define e where "e = max \<lfloor>log 2 ?x\<rfloor> (- 1022)"
  have "real_of_int m < 2 ^ 53" using m(2) by (metis of_int_less_numeral_power_cancel_iff)
  then have "?x < 2 ^ 53 * 2 powi k" by simp
  also have "\<dots> = 2 powi (k + 53)"
    using power_int_add [of "2::real" k 53] by simp
  also have "\<dots> = 2 powr real_of_int (k + 53)"
    by (rule powr_real_of_int' [symmetric]) simp_all
  finally have "log 2 ?x < real_of_int (k + 53)"
    using x by (simp add: log_less_iff)
  then have "\<lfloor>log 2 ?x\<rfloor> < k + 53" by linarith
  then have ek: "e - 52 \<le> k" using k(1) x by (simp add: e_def)
  define j where "j = nat (k - (e - 52))"
  have kj: "k = (e - 52) + int j" using ek by (simp add: j_def)
  have "(2::real) powi k = 2 powi (e - 52) * 2 powi (int j)"
    unfolding kj by (rule power_int_add) simp
  then have pk: "(2::real) powi k = 2 powi (e - 52) * 2 ^ j" by simp
  have q: "?x / 2 powi (e - 52) = of_int (m * 2 ^ j)"
    by (simp add: pk)
  have y: "of_int (roundHalfEven (?x / 2 powi (e - 52))) * 2 powi (e - 52) = ?x"
    unfolding q roundHalfEven_of_int by (simp add: pk)
  have le970: "(2::real) powi k \<le> 2 powi 970"
    by (rule power_int_increasing) (use k(2) in simp_all)
  have "?x < 2 ^ 53 * 2 powi k" using \<open>real_of_int m < 2 ^ 53\<close> by simp
  also have "\<dots> \<le> 2 ^ 53 * 2 powi 970"
    by (rule mult_left_mono [OF le970]) simp
  also have "\<dots> < 2 ^ 1024" by simp
  finally have fin: "?x < 2 ^ 1024" .
  have "rnd64 ?x = (let y = of_int (roundHalfEven (?x / 2 powi (e - 52))) * 2 powi (e - 52)
                    in if 2 ^ 1024 \<le> y then PInf else Fin y)"
    unfolding rnd64_pos [OF x] Let_def e_def by (rule refl)
  then show ?thesis
    unfolding Let_def y using fin by simp
qed

lemma rnd64_numeral:
  "numeral w < (2 :: int) ^ 53 \<Longrightarrow> rnd64 (numeral w) = Fin (numeral w)"
  using rnd64_exact [of "numeral w" 0] by simp

lemma rnd64_neg_numeral:
  "numeral w < (2 :: int) ^ 53 \<Longrightarrow> rnd64 (- numeral w) = Fin (- numeral w)"
  by (simp add: rnd64_minus rnd64_numeral)

lemma rnd64_1: "rnd64 1 = Fin 1"
  using rnd64_exact [of 1 0] by simp

text \<open>A real that is not negative is rounded to a number that is not negative.\<close>

lemma roundHalfEven_nonneg: "0 \<le> q \<Longrightarrow> 0 \<le> roundHalfEven q"
  by (auto simp: roundHalfEven_def Let_def)




text \<open>
  A certificate in the form used for the examples: \<open>x * 2 ^ j\<close> lies between
  \<open>2 ^ 52\<close> and \<open>2 ^ 53\<close>, and \<open>n\<close> is the integer nearest to it.
\<close>

lemma roundHalfEven_le: "roundHalfEven q \<le> \<lfloor>q\<rfloor> + 1"
  by (simp add: roundHalfEven_def Let_def)

lemma rnd64_cert:
  fixes x :: real and n :: int and j :: nat
  assumes j: "j \<le> 1074" and lo: "2 ^ 52 \<le> x * 2 ^ j" and hi: "x * 2 ^ j < 2 ^ 53"
    and n: "roundHalfEven (x * 2 ^ j) = n"
  shows "rnd64 x = Fin (of_int n / 2 ^ j)"
proof -
  define u :: real where "u = 1 / 2 ^ j"
  have u: "u = 2 powi (- int j)"
    by (simp add: u_def power_int_minus divide_inverse)
  have xu: "x / u = x * 2 ^ j" by (simp add: u_def)
  have upos: "0 < u" by (simp add: u_def)
  have ule: "u \<le> 1" by (simp add: u_def)
  have "\<lfloor>x * 2 ^ j\<rfloor> < 2 ^ 53" using hi by (simp add: floor_less_iff)
  with roundHalfEven_le [of "x * 2 ^ j"] n have "n \<le> 2 ^ 53" by linarith
  then have "real_of_int n \<le> 2 ^ 53"
    by (metis of_int_le_iff of_int_numeral of_int_power)
  moreover have "0 \<le> x * 2 ^ j" using lo by (rule order_trans [rotated]) simp
  then have "0 \<le> n" using roundHalfEven_nonneg [of "x * 2 ^ j"] n by simp
  ultimately have "of_int n * u \<le> 2 ^ 53 * 1"
    using ule upos by (intro mult_mono) simp_all
  also have "\<dots> < (2::real) ^ 1024" by simp
  finally have fin: "of_int n * u < 2 ^ 1024" .
  have "rnd64 x = Fin (of_int n * u)"
  proof (rule rnd64_normal [OF u])
    show "- 1074 \<le> - int j" using j by simp
    show "2 ^ 52 * u \<le> x" using lo upos by (simp add: u_def field_simps)
    show "x < 2 ^ 53 * u" using hi upos by (simp add: u_def field_simps)
    show "roundHalfEven (x / u) = n" unfolding xu by (rule n)
    show "of_int n * u < 2 ^ 1024" by (rule fin)
  qed
  then show ?thesis by (simp add: u_def)
qed

text \<open>
  The roundings that occur in the examples below, each with its certificate: the weights
  0.4, 0.15 and 0.05 and the time window 0.3; the quotients, products and sums of the
  scores of the sample pairs; the double nearest to 0.425; and the sum of three times
  the double 0.1 and its third.
\<close>

lemma rnd64_value_1:
  "rnd64 (2 / 5) = Fin (7205759403792794 / 2 ^ 54)"
  using rnd64_cert [of 54 "2 / 5" 7205759403792794]
  by (simp add: roundHalfEven_def Let_def)

lemma rnd64_value_2:
  "rnd64 (3 / 20) = Fin (5404319552844595 / 2 ^ 55)"
  using rnd64_cert [of 55 "3 / 20" 5404319552844595]
  by (simp add: roundHalfEven_def Let_def)

lemma rnd64_value_3:
  "rnd64 (1 / 20) = Fin (7205759403792794 / 2 ^ 57)"
  using rnd64_cert [of 57 "1 / 20" 7205759403792794]
  by (simp add: roundHalfEven_def Let_def)

lemma rnd64_value_4:
  "rnd64 (3 / 10) = Fin (5404319552844595 / 2 ^ 54)"
  using rnd64_cert [of 54 "3 / 10" 5404319552844595]
  by (simp add: roundHalfEven_def Let_def)

lemma rnd64_value_5:
  "rnd64 (1 / 5) = Fin (7205759403792794 / 2 ^ 55)"
  using rnd64_cert [of 55 "1 / 5" 7205759403792794]
  by (simp add: roundHalfEven_def Let_def)

lemma rnd64_value_6:
  "rnd64 (12980742146337070512478121581609 / 162259276829213363391578010288128)
   = Fin (5764607523034236 / 2 ^ 56)"
  using rnd64_cert
    [of 56 "12980742146337070512478121581609 / 162259276829213363391578010288128"
        5764607523034236]
  by (simp add: roundHalfEven_def Let_def)

lemma rnd64_value_7:
  "rnd64 (4 / 5) = Fin (7205759403792794 / 2 ^ 53)"
  using rnd64_cert [of 53 "4 / 5" 7205759403792794]
  by (simp add: roundHalfEven_def Let_def)

lemma rnd64_value_8:
  "rnd64 (12980742146337070512478121581609 / 324518553658426726783156020576256)
   = Fin (5764607523034236 / 2 ^ 57)"
  using rnd64_cert
    [of 57 "12980742146337070512478121581609 / 324518553658426726783156020576256"
        5764607523034236]
  by (simp add: roundHalfEven_def Let_def)

lemma rnd64_value_9:
  "rnd64 (1441151880758559 / 18014398509481984) = Fin (5764607523034236 / 2 ^ 56)"
  using rnd64_cert [of 56 "1441151880758559 / 18014398509481984" 5764607523034236]
  by (simp add: roundHalfEven_def Let_def)

lemma rnd64_value_10:
  "rnd64 (4323455642275677 / 36028797018963968) = Fin (8646911284551354 / 2 ^ 56)"
  using rnd64_cert [of 56 "4323455642275677 / 36028797018963968" 8646911284551354]
  by (simp add: roundHalfEven_def Let_def)

lemma rnd64_value_11:
  "rnd64 (19471113219505603967277331424215 / 162259276829213363391578010288128)
   = Fin (8646911284551352 / 2 ^ 56)"
  using rnd64_cert
    [of 56 "19471113219505603967277331424215 / 162259276829213363391578010288128"
        8646911284551352]
  by (simp add: roundHalfEven_def Let_def)

lemma rnd64_value_12:
  "rnd64 (1080863910568919 / 9007199254740992) = Fin (8646911284551352 / 2 ^ 56)"
  using rnd64_cert [of 56 "1080863910568919 / 9007199254740992" 8646911284551352]
  by (simp add: roundHalfEven_def Let_def)

lemma rnd64_value_13:
  "rnd64 (9 / 10) = Fin (8106479329266893 / 2 ^ 53)"
  using rnd64_cert [of 53 "9 / 10" 8106479329266893]
  by (simp add: roundHalfEven_def Let_def)

lemma rnd64_value_14:
  "rnd64 (29206669829258407752355848084521 / 649037107316853453566312041152512)
   = Fin (6485183463413515 / 2 ^ 57)"
  using rnd64_cert
    [of 57 "29206669829258407752355848084521 / 649037107316853453566312041152512"
        6485183463413515]
  by (simp add: roundHalfEven_def Let_def)

lemma rnd64_value_15:
  "rnd64 (6485183463413515 / 144115188075855872) = Fin (6485183463413515 / 2 ^ 57)"
  using rnd64_cert [of 57 "6485183463413515 / 144115188075855872" 6485183463413515]
  by (simp add: roundHalfEven_def Let_def)

lemma rnd64_value_16:
  "rnd64 (3602879701896397 / 9007199254740992) = Fin (7205759403792794 / 2 ^ 54)"
  using rnd64_cert [of 54 "3602879701896397 / 9007199254740992" 7205759403792794]
  by (simp add: roundHalfEven_def Let_def)

lemma rnd64_value_17:
  "rnd64 (1 / 2) = Fin (4503599627370496 / 2 ^ 53)"
  using rnd64_cert [of 53 "1 / 2" 4503599627370496]
  by (simp add: roundHalfEven_def Let_def)

lemma rnd64_value_18:
  "rnd64 (3602879701896397 / 18014398509481984) = Fin (7205759403792794 / 2 ^ 55)"
  using rnd64_cert [of 55 "3602879701896397 / 18014398509481984" 7205759403792794]
  by (simp add: roundHalfEven_def Let_def)

lemma rnd64_value_19:
  "rnd64 (3602879701896397 / 144115188075855872) = Fin (7205759403792794 / 2 ^ 58)"
  using rnd64_cert [of 58 "3602879701896397 / 144115188075855872" 7205759403792794]
  by (simp add: roundHalfEven_def Let_def)

lemma rnd64_value_20:
  "rnd64 (61248954932238749 / 144115188075855872) = Fin (7656119366529844 / 2 ^ 54)"
  using rnd64_cert [of 54 "61248954932238749 / 144115188075855872" 7656119366529844]
  by (simp add: roundHalfEven_def Let_def)

lemma rnd64_value_21:
  "rnd64 (3602879701896397 / 4503599627370496) = Fin (7205759403792794 / 2 ^ 53)"
  using rnd64_cert [of 53 "3602879701896397 / 4503599627370496" 7205759403792794]
  by (simp add: roundHalfEven_def Let_def)

lemma rnd64_value_22:
  "rnd64 (5404319552844595 / 36028797018963968) = Fin (5404319552844595 / 2 ^ 55)"
  using rnd64_cert [of 55 "5404319552844595 / 36028797018963968" 5404319552844595]
  by (simp add: roundHalfEven_def Let_def)

lemma rnd64_value_23:
  "rnd64 (17 / 40) = Fin (7656119366529843 / 2 ^ 54)"
  using rnd64_cert [of 54 "17 / 40" 7656119366529843]
  by (simp add: roundHalfEven_def Let_def)

lemma rnd64_value_24:
  "rnd64 (3602879701896397 / 36028797018963968) = Fin (7205759403792794 / 2 ^ 56)"
  using rnd64_cert [of 56 "3602879701896397 / 36028797018963968" 7205759403792794]
  by (simp add: roundHalfEven_def Let_def)

lemma rnd64_value_25:
  "rnd64 (10808639105689191 / 36028797018963968) = Fin (5404319552844596 / 2 ^ 54)"
  using rnd64_cert [of 54 "10808639105689191 / 36028797018963968" 5404319552844596]
  by (simp add: roundHalfEven_def Let_def)

lemma rnd64_value_26:
  "rnd64 (1351079888211149 / 13510798882111488) = Fin (7205759403792795 / 2 ^ 56)"
  using rnd64_cert [of 56 "1351079888211149 / 13510798882111488" 7205759403792795]
  by (simp add: roundHalfEven_def Let_def)

lemmas rnd64_simps =
  rnd64_0 rnd64_1 rnd64_numeral rnd64_neg_numeral
  rnd64_value_1 [simplified]
  rnd64_value_2 [simplified]
  rnd64_value_3 [simplified]
  rnd64_value_4 [simplified]
  rnd64_value_5 [simplified]
  rnd64_value_6 [simplified]
  rnd64_value_7 [simplified]
  rnd64_value_8 [simplified]
  rnd64_value_9 [simplified]
  rnd64_value_10 [simplified]
  rnd64_value_11 [simplified]
  rnd64_value_12 [simplified]
  rnd64_value_13 [simplified]
  rnd64_value_14 [simplified]
  rnd64_value_15 [simplified]
  rnd64_value_16 [simplified]
  rnd64_value_17 [simplified]
  rnd64_value_18 [simplified]
  rnd64_value_19 [simplified]
  rnd64_value_20 [simplified]
  rnd64_value_21 [simplified]
  rnd64_value_22 [simplified]
  rnd64_value_23 [simplified]
  rnd64_value_24 [simplified]
  rnd64_value_25 [simplified]
  rnd64_value_26 [simplified]

subsection \<open>The matcher and the reference greedy algorithm\<close>

lemma innerLoop_fl_foldl:
  "innerLoop_fl rnd h c claimed i r j ds best
   = foldl keepBetter best (loopCandidates rnd h c claimed i r j ds)"
proof (induction ds arbitrary: j best)
  case Nil
  then show ?case by (simp add: loopCandidates_def List.map_filter_simps)
next
  case (Cons d ds)
  obtain bm bs where best: "best = (bm, bs)" by (cases best) auto
  show ?case
    by (simp add: best Cons.IH loopCandidates_def List.map_filter_simps keepBetter_def
        split: option.split)
qed

lemma js_lt_scoreKey:
  assumes "js_lt (matchScore x) PInf" "js_lt (matchScore y) PInf"
  shows "js_lt (matchScore y) (matchScore x) = (scoreKey y < scoreKey x)"
proof -
  have lb: "- 2 < arctan s" for s :: real
    using arctan_lbound [of s] pi_less_4 by linarith
  show ?thesis
    using assms lb
    by (cases "matchScore x"; cases "matchScore y")
       (auto simp: scoreKey_def arctan_less_iff not_less intro: less_imp_le)
qed

lemma foldl_keepBetter_Some:
  assumes "\<forall>m \<in> set (b # xs). js_lt (matchScore m) PInf"
  shows "foldl keepBetter (Some b, matchScore b) xs
         = (let m = foldl (\<lambda>b x. if scoreKey x < scoreKey b then x else b) b xs
            in (Some m, matchScore m))"
  using assms
proof (induction xs arbitrary: b)
  case Nil
  then show ?case by simp
next
  case (Cons x xs)
  from Cons.prems have bx: "js_lt (matchScore b) PInf" "js_lt (matchScore x) PInf" by simp_all
  note lt = js_lt_scoreKey [OF bx]
  show ?case
  proof (cases "scoreKey x < scoreKey b")
    case True
    have "\<forall>m \<in> set (x # xs). js_lt (matchScore m) PInf" using Cons.prems by simp
    from Cons.IH [OF this] True lt show ?thesis by (simp add: keepBetter_def)
  next
    case False
    have "\<forall>m \<in> set (b # xs). js_lt (matchScore m) PInf" using Cons.prems by simp
    from Cons.IH [OF this] False lt show ?thesis by (simp add: keepBetter_def)
  qed
qed

lemma foldl_keepBetter_find:
  assumes "\<forall>m \<in> set xs. js_lt (matchScore m) PInf"
  shows "fst (foldl keepBetter (None, PInf) xs)
         = find (\<lambda>x. list_all (\<lambda>y. \<not> js_lt (matchScore y) (matchScore x)) xs) xs"
proof (cases xs)
  case Nil
  then show ?thesis by simp
next
  case (Cons b ys)
  from assms Cons have b: "js_lt (matchScore b) PInf" by simp
  have "foldl keepBetter (None, PInf) xs = foldl keepBetter (Some b, matchScore b) ys"
    by (simp add: Cons keepBetter_def b)
  also have "fst \<dots> = Some (foldl (\<lambda>b x. if scoreKey x < scoreKey b then x else b) b ys)"
    using foldl_keepBetter_Some [of b ys] assms Cons by (simp add: Let_def)
  also have "\<dots> = find (\<lambda>x. list_all (\<lambda>y. \<not> scoreKey y < scoreKey x) xs) xs"
    by (simp only: Cons fold_min_find)
  also have "\<dots> = find (\<lambda>x. list_all (\<lambda>y. \<not> js_lt (matchScore y) (matchScore x)) xs) xs"
    using assms by (intro find_cong refl) (auto simp: list_all_iff js_lt_scoreKey)
  finally show ?thesis .
qed

lemma js_add_NaN_right: "js_add x NaN = NaN"
  by (cases x) simp_all

lemma js_lt_NaN_right: "js_lt x NaN = False"
  by (cases x) simp_all

lemma fl_add_NaN_right: "fl_add rnd x NaN = NaN"
  by (cases x) simp_all

lemma fl_sub_NaN: "fl_sub rnd x NaN = NaN" "fl_sub rnd NaN y = NaN"
  by (cases x; simp add: fl_sub_def) (cases y; simp add: fl_sub_def)

lemma score_NaN_depthDiff: "calculateMatchScore_fl rnd td ds md NaN c = NaN"
  by (simp add: calculateMatchScore_fl_def fl_add_NaN_right js_add_NaN_right)

lemma depth_as_spec:
  "noZeroDepth e \<Longrightarrow>
     depth_km e = Some NaN \<or> js_or_field (depth_km e) (Fin 10) = spec_depth e"
proof (cases "depth_km e")
  case None
  then show ?thesis by (simp add: js_or_field_def spec_depth_def)
next
  case (Some x)
  assume "noZeroDepth e"
  with Some show ?thesis
    by (cases x) (simp_all add: js_or_field_def js_or_def spec_depth_def noZeroDepth_def)
qed

lemma candidateMatch_fl_agree:
  assumes "js_or_field (depth_km r) (Fin 10) = spec_depth r"
    and "js_or_field (depth_km d) (Fin 10) = spec_depth d"
  shows "candidateMatch_fl rnd h c i r j d
         = (if spec_rejected rnd h c r d then None
            else Some (spec_candidate rnd h c i r (j, d)))"
  using assms
  by (simp add: candidateMatch_fl_def spec_rejected_def spec_candidate_def spec_timeDiff_def
      spec_distance_def spec_magnitudeDiff_def spec_depthDiff_def spec_score_def
      calculateDistance_def Let_def split: option.splits)

lemma candidateMatch_fl_NaN_depth:
  assumes nan: "depth_km r = Some NaN \<or> depth_km d = Some NaN"
    and ord: "spec_rejected rnd h c r d \<or> js_lt (spec_score rnd h c r d) PInf"
  shows "spec_rejected rnd h c r d" "candidateMatch_fl rnd h c i r j d = None"
proof -
  from nan have "spec_depth r = NaN \<or> spec_depth d = NaN"
    by (auto simp: spec_depth_def)
  then have dd: "spec_depthDiff rnd r d = NaN"
    by (auto simp: spec_depthDiff_def fl_sub_NaN)
  then have "spec_score rnd h c r d = NaN"
    by (simp add: spec_score_def score_NaN_depthDiff)
  with ord show rej: "spec_rejected rnd h c r d" by auto
  then have "js_gt (spec_timeDiff rnd r d) (timeWindow c)
      \<or> js_gt (spec_distance h r d) (distanceThreshold c)
      \<or> (case spec_magnitudeDiff rnd r d of
            None \<Rightarrow> False
          | Some md \<Rightarrow> js_gt md (magnitudeDiffThreshold c))"
    by (simp add: spec_rejected_def dd js_gt_def js_lt_NaN_right)
  then show "candidateMatch_fl rnd h c i r j d = None"
    by (auto simp: candidateMatch_fl_def spec_timeDiff_def spec_distance_def
        spec_magnitudeDiff_def calculateDistance_def Let_def split: option.splits)
qed

lemma candidateMatch_fl_spec:
  assumes "noZeroDepth r" "noZeroDepth d"
    and "spec_rejected rnd h c r d \<or> js_lt (spec_score rnd h c r d) PInf"
  shows "candidateMatch_fl rnd h c i r j d
         = (if spec_rejected rnd h c r d then None
            else Some (spec_candidate rnd h c i r (j, d)))"
proof (cases "depth_km r = Some NaN \<or> depth_km d = Some NaN")
  case True
  from candidateMatch_fl_NaN_depth [OF True assms(3)] show ?thesis by simp
next
  case False
  with depth_as_spec [OF assms(1)] depth_as_spec [OF assms(2)]
  show ?thesis by (intro candidateMatch_fl_agree) auto
qed

lemma loopCandidates_spec:
  assumes "noZeroDepth r" "list_all noZeroDepth dets"
    and "list_all (\<lambda>d. spec_rejected rnd h c r d \<or> js_lt (spec_score rnd h c r d) PInf) dets"
  shows "loopCandidates rnd h c claimed i r 0 dets
         = map (spec_candidate rnd h c i r) (spec_survivors rnd h c claimed r dets)"
  unfolding loopCandidates_def spec_survivors_def
proof (rule map_filter_if)
  fix x
  assume x: "x \<in> set (enumerate 0 dets)"
  obtain k d where kd: "x = (k, d)" by (cases x) auto
  from x kd have din: "d \<in> set dets" by (auto simp: in_set_enumerate_eq)
  with assms(2,3) have d: "noZeroDepth d"
    "spec_rejected rnd h c r d \<or> js_lt (spec_score rnd h c r d) PInf"
    by (auto simp: list_all_iff)
  from candidateMatch_fl_spec [OF assms(1) d, of i k]
  show "(case x of (k, d) \<Rightarrow> if k \<in> claimed then None else candidateMatch_fl rnd h c i r k d)
        = (if (case x of (j, d) \<Rightarrow> j \<notin> claimed \<and> \<not> spec_rejected rnd h c r d)
           then Some (spec_candidate rnd h c i r x) else None)"
    by (simp add: kd)
qed

lemma innerLoop_fl_spec:
  assumes "noZeroDepth r" "list_all noZeroDepth dets"
    and "list_all (\<lambda>d. spec_rejected rnd h c r d \<or> js_lt (spec_score rnd h c r d) PInf) dets"
  shows "fst (innerLoop_fl rnd h c claimed i r 0 dets (None, PInf))
         = map_option (spec_candidate rnd h c i r)
             (spec_best rnd h c r (spec_survivors rnd h c claimed r dets))"
proof -
  let ?S = "spec_survivors rnd h c claimed r dets"
  have sv: "\<And>k d. (k, d) \<in> set ?S \<Longrightarrow> js_lt (spec_score rnd h c r d) PInf"
    using assms(3) by (auto simp: spec_survivors_def list_all_iff in_set_enumerate_eq)
  have sc: "\<And>x. matchScore (spec_candidate rnd h c i r x) = spec_score rnd h c r (snd x)"
    by (simp add: spec_candidate_def)
  have fin: "\<forall>m \<in> set (map (spec_candidate rnd h c i r) ?S). js_lt (matchScore m) PInf"
    using sv by (auto simp: sc)
  have "fst (innerLoop_fl rnd h c claimed i r 0 dets (None, PInf))
        = fst (foldl keepBetter (None, PInf) (map (spec_candidate rnd h c i r) ?S))"
    by (simp add: innerLoop_fl_foldl loopCandidates_spec [OF assms])
  also have "\<dots> = find (\<lambda>x. list_all (\<lambda>y. \<not> js_lt (matchScore y) (matchScore x))
                               (map (spec_candidate rnd h c i r) ?S))
                      (map (spec_candidate rnd h c i r) ?S)"
    by (rule foldl_keepBetter_find [OF fin])
  also have "\<dots> = map_option (spec_candidate rnd h c i r) (spec_best rnd h c r ?S)"
    by (simp add: find_map_option spec_best_def list.pred_map comp_def sc case_prod_unfold)
  finally show ?thesis .
qed

lemma outerLoop_fl_spec:
  assumes "list_all noZeroDepth dets"
  shows "list_all noZeroDepth refs \<Longrightarrow> scoresOrdered rnd h c refs dets \<Longrightarrow>
     fst (outerLoop_fl rnd h c dets i refs (ms, mr, md))
     = ms @ spec_greedy rnd h c dets i refs md"
proof (induction refs arbitrary: i ms mr md)
  case Nil
  then show ?case by simp
next
  case (Cons r refs)
  then have r: "noZeroDepth r" and rest: "list_all noZeroDepth refs"
    and rs: "list_all (\<lambda>d. spec_rejected rnd h c r d
                           \<or> js_lt (spec_score rnd h c r d) PInf) dets"
    and ord: "scoresOrdered rnd h c refs dets"
    by (simp_all add: scoresOrdered_def)
  note inner = innerLoop_fl_spec [OF r assms rs, of md i]
  show ?case
  proof (cases "spec_best rnd h c r (spec_survivors rnd h c md r dets)")
    case None
    with inner Cons.IH [OF rest ord] show ?thesis by simp
  next
    case (Some jd)
    with inner Cons.IH [OF rest ord] show ?thesis by (simp add: spec_candidate_def)
  qed
qed

text \<open>
  C1, amended. In the arithmetic of the program, whatever its rounding and whatever the
  distance function: for reference and candidate lists none of whose events has a
  \<open>depth_km\<close> of exactly 0, and such that every pair of a reference event and a
  candidate that passes the four filters has a score that is a number below
  \<open>Infinity\<close> (neither \<open>NaN\<close> nor \<open>Infinity\<close>), the output of the
  matcher is the output of the reference greedy algorithm: the reference events are
  processed in their order; a candidate that no earlier reference event has claimed is
  rejected exactly when its time difference exceeds \<open>timeWindow\<close>, or its distance
  exceeds \<open>distanceThreshold\<close>, or its magnitude difference (both magnitudes
  present) exceeds \<open>magnitudeDiffThreshold\<close>, or its depth difference (a missing
  depth being 10 km) exceeds \<open>depthDiffThreshold\<close>; the first survivor of minimum
  score is committed and its index claimed for good; a reference event without a
  survivor stays unmatched and claims nothing. The differences and the scores are the
  rounded ones the program computes.
\<close>

theorem matchEvents_greedy:
  assumes "list_all noZeroDepth refs" and "list_all noZeroDepth dets"
    and "scoresOrdered rnd h (mergeCriteria defaultCriteria crit) refs dets"
  shows "matchEvents_fl rnd h refs dets crit
         = Inr (spec_matchEvents rnd h refs dets (mergeCriteria defaultCriteria crit))"
proof -
  define mc where "mc = mergeCriteria defaultCriteria crit"
  obtain ms mr md where run: "outerLoop_fl rnd h mc dets 0 refs ([], {}, {}) = (ms, mr, md)"
    by (cases "outerLoop_fl rnd h mc dets 0 refs ([], {}, {})") auto
  have "loopInv (length dets) 0 ([], {}, {})" by (simp add: loopInv_def)
  from outerLoop_fl_inv [OF this, of refs rnd h mc] run
  have "loopInv (length dets) (length refs) (ms, mr, md)" by simp
  then have mr: "mr = referenceIndex ` set ms" and md: "md = detectedIndex ` set ms"
    by (simp_all add: loopInv_def)
  from outerLoop_fl_spec [OF assms(2,1) assms(3) [folded mc_def], of 0 "[]" "{}" "{}"] run
  have ms: "spec_greedy rnd h mc dets 0 refs {} = ms" by simp
  show ?thesis
    by (simp add: matchEvents_fl_def spec_matchEvents_def mc_def [symmetric] run Let_def ms
        filterUnmatched_nth mr md)
qed

lemmas fl_sample_simps =
  matchEvents_fl_def candidateMatch_fl_def calculateMatchScore_fl_def fl_sub_def

lemmas spec_simps =
  spec_matchEvents_def spec_survivors_def spec_best_def spec_rejected_def spec_score_def
  spec_candidate_def spec_timeDiff_def spec_distance_def spec_magnitudeDiff_def
  spec_depth_def spec_depthDiff_def scoresOrdered_def noZeroDepth_def

theorem matchEvents_greedy_witness:
  "list_all noZeroDepth [eventAt ''r'' (Fin 0) None None]
   \<and> list_all noZeroDepth
       [eventAt ''dA'' (Fin 6000) (Some (Fin 50)) None, eventAt ''dB'' (Fin 9000) None None]
   \<and> scoresOrdered rnd64 greatCircleKm (mergeCriteria defaultCriteria noCriteria)
       [eventAt ''r'' (Fin 0) None None]
       [eventAt ''dA'' (Fin 6000) (Some (Fin 50)) None, eventAt ''dB'' (Fin 9000) None None]
   \<and> matchEvents_fl rnd64 greatCircleKm
       [eventAt ''r'' (Fin 0) None None]
       [eventAt ''dA'' (Fin 6000) (Some (Fin 50)) None, eventAt ''dB'' (Fin 9000) None None]
       noCriteria
     = Inr (spec_matchEvents rnd64 greatCircleKm
       [eventAt ''r'' (Fin 0) None None]
       [eventAt ''dA'' (Fin 6000) (Some (Fin 50)) None, eventAt ''dB'' (Fin 9000) None None]
       (mergeCriteria defaultCriteria noCriteria))
   \<and> spec_score rnd64 greatCircleKm defaultCriteria (eventAt ''r'' (Fin 0) None None)
       (eventAt ''dA'' (Fin 6000) (Some (Fin 50)) None) = Fin (8646911284551354 / 2 ^ 56)
   \<and> spec_score rnd64 greatCircleKm defaultCriteria (eventAt ''r'' (Fin 0) None None)
       (eventAt ''dB'' (Fin 9000) None None) = Fin (8646911284551352 / 2 ^ 56)
   \<and> matchedPairsOf (matchEvents_fl rnd64 greatCircleKm
       [eventAt ''r'' (Fin 0) None None]
       [eventAt ''dA'' (Fin 6000) (Some (Fin 50)) None, eventAt ''dB'' (Fin 9000) None None]
       noCriteria) = [(0, 1)]
   \<and> list_all noZeroDepth
       [eventAt ''r0'' (Fin 0) None None, eventAt ''r1'' (Fin 0) None None]
   \<and> list_all noZeroDepth
       [eventAt ''d0'' (Fin 30000) None None, eventAt ''d1'' (Fin 15000) None None,
        eventAt ''d2'' (Fin 15000) None None]
   \<and> scoresOrdered rnd64 greatCircleKm (mergeCriteria defaultCriteria noCriteria)
       [eventAt ''r0'' (Fin 0) None None, eventAt ''r1'' (Fin 0) None None]
       [eventAt ''d0'' (Fin 30000) None None, eventAt ''d1'' (Fin 15000) None None,
        eventAt ''d2'' (Fin 15000) None None]
   \<and> matchEvents_fl rnd64 greatCircleKm
       [eventAt ''r0'' (Fin 0) None None, eventAt ''r1'' (Fin 0) None None]
       [eventAt ''d0'' (Fin 30000) None None, eventAt ''d1'' (Fin 15000) None None,
        eventAt ''d2'' (Fin 15000) None None]
       noCriteria
     = Inr (spec_matchEvents rnd64 greatCircleKm
       [eventAt ''r0'' (Fin 0) None None, eventAt ''r1'' (Fin 0) None None]
       [eventAt ''d0'' (Fin 30000) None None, eventAt ''d1'' (Fin 15000) None None,
        eventAt ''d2'' (Fin 15000) None None]
       (mergeCriteria defaultCriteria noCriteria))
   \<and> matchedPairsOf (matchEvents_fl rnd64 greatCircleKm
       [eventAt ''r0'' (Fin 0) None None, eventAt ''r1'' (Fin 0) None None]
       [eventAt ''d0'' (Fin 30000) None None, eventAt ''d1'' (Fin 15000) None None,
        eventAt ''d2'' (Fin 15000) None None]
       noCriteria) = [(0, 1), (1, 2)]"
proof -
  let ?refs = "[eventAt ''r'' (Fin 0) None None]"
  let ?dets = "[eventAt ''dA'' (Fin 6000) (Some (Fin 50)) None,
                eventAt ''dB'' (Fin 9000) None None]"
  let ?refs2 = "[eventAt ''r0'' (Fin 0) None None, eventAt ''r1'' (Fin 0) None None]"
  let ?dets2 = "[eventAt ''d0'' (Fin 30000) None None, eventAt ''d1'' (Fin 15000) None None,
        eventAt ''d2'' (Fin 15000) None None]"
  note ev = sample_simps fl_sample_simps spec_simps rnd64_simps
  have r: "list_all noZeroDepth ?refs" by (simp add: noZeroDepth_def eventAt_def)
  have d: "list_all noZeroDepth ?dets" by (simp add: noZeroDepth_def eventAt_def)
  have s: "scoresOrdered rnd64 greatCircleKm (mergeCriteria defaultCriteria noCriteria)
             ?refs ?dets"
    by (simp add: ev)
  have a: "spec_score rnd64 greatCircleKm defaultCriteria (eventAt ''r'' (Fin 0) None None)
       (eventAt ''dA'' (Fin 6000) (Some (Fin 50)) None) = Fin (8646911284551354 / 2 ^ 56)"
    by (simp add: ev)
  have b: "spec_score rnd64 greatCircleKm defaultCriteria (eventAt ''r'' (Fin 0) None None)
       (eventAt ''dB'' (Fin 9000) None None) = Fin (8646911284551352 / 2 ^ 56)"
    by (simp add: ev)
  have p: "indexPairs (matches (spec_matchEvents rnd64 greatCircleKm ?refs ?dets
             (mergeCriteria defaultCriteria noCriteria))) = [(0, 1)]"
    by (simp add: ev)
  note 1 = matchEvents_greedy [OF r d s]
  have p1: "matchedPairsOf (matchEvents_fl rnd64 greatCircleKm ?refs ?dets noCriteria)
            = [(0, 1)]"
    unfolding 1 using p by (simp add: matchedPairsOf_def)
  have r2: "list_all noZeroDepth ?refs2" by (simp add: noZeroDepth_def eventAt_def)
  have d2: "list_all noZeroDepth ?dets2" by (simp add: noZeroDepth_def eventAt_def)
  have s2: "scoresOrdered rnd64 greatCircleKm (mergeCriteria defaultCriteria noCriteria)
             ?refs2 ?dets2"
    by (simp add: ev)
  have q: "indexPairs (matches (spec_matchEvents rnd64 greatCircleKm ?refs2 ?dets2
             (mergeCriteria defaultCriteria noCriteria))) = [(0, 1), (1, 2)]"
    by (simp add: ev)
  note 2 = matchEvents_greedy [OF r2 d2 s2]
  have p2: "matchedPairsOf (matchEvents_fl rnd64 greatCircleKm ?refs2 ?dets2 noCriteria)
            = [(0, 1), (1, 2)]"
    unfolding 2 using q by (simp add: matchedPairsOf_def)
  from r d s 1 a b p1 r2 d2 s2 2 p2 show ?thesis by blast
qed

text \<open>
  The same input in exact arithmetic: the two scores are both \<open>3 / 25\<close>, and the
  first candidate is committed. The doubles break the tie the other way.
\<close>

lemma exact_arithmetic_tie:
  "matchedPairsOf (matchEvents greatCircleKm
       [eventAt ''r'' (Fin 0) None None]
       [eventAt ''dA'' (Fin 6000) (Some (Fin 50)) None, eventAt ''dB'' (Fin 9000) None None]
       noCriteria) = [(0, 0)]"
  by (simp add: sample_simps)

theorem matchEvents_greedy_counterexample:
  "matchedPairsOf (matchEvents_fl rnd64 greatCircleKm
      [eventAt ''r'' (Fin 0) (Some (Fin 0)) None]
      [eventAt ''d'' (Fin 0) (Some (Fin 55)) None] noCriteria) = [(0, 0)]
   \<and> indexPairs (matches (spec_matchEvents rnd64 greatCircleKm
      [eventAt ''r'' (Fin 0) (Some (Fin 0)) None]
      [eventAt ''d'' (Fin 0) (Some (Fin 55)) None] defaultCriteria)) = []
   \<and> matchedPairsOf (matchEvents_fl rnd64 greatCircleKm
      [eventAt ''r'' (Fin 0) None None]
      [eventAt ''d'' (Fin 0) None None] (depthCriteria (Fin 0))) = []
   \<and> indexPairs (matches (spec_matchEvents rnd64 greatCircleKm
      [eventAt ''r'' (Fin 0) None None]
      [eventAt ''d'' (Fin 0) None None]
      (mergeCriteria defaultCriteria (depthCriteria (Fin 0))))) = [(0, 0)]"
  by (simp add: sample_simps fl_sample_simps spec_simps rnd64_simps)

subsection \<open>The filters at their thresholds\<close>






subsection \<open>The score in rounded arithmetic\<close>













subsection \<open>The residual statistics in rounded arithmetic\<close>
















end
